theory Spec2Isabelle
  imports Main "HOL-Library.Word" "HOL-Library.Monad_Syntax"
begin

unbundle bit_operations_syntax

section \<open>The manifest: data model (manifest.cpp)\<close>

text \<open>
  A manifest maps the observed state of a set of include files to a result name.
  The C structs carry a count next to every array; the model keeps the arrays as lists
  and reads each count (\<open>n_files\<close>, \<open>n_file_infos\<close>, \<open>n_results\<close>,
  \<open>n_file_info_indexes\<close>) as the length of its list. Where the code stores such a
  count or an index in a \<open>uint32_t\<close> or \<open>uint16_t\<close>, the model converts with
  \<open>of_nat\<close>, which truncates as the C assignment does. The \<open>header\<close> field of
  \<open>struct manifest\<close> is only read by \<open>manifest_dump\<close> and is left out.
\<close>

type_synonym byte = "8 word"

text \<open>\<open>struct digest\<close>: an array of \<open>DIGEST_SIZE\<close> bytes, compared bytewise.\<close>

type_synonym digest = "byte list"

definition DIGEST_SIZE :: nat where
  "DIGEST_SIZE = 20"

definition MAX_MANIFEST_ENTRIES :: nat where
  "MAX_MANIFEST_ENTRIES = 100"

definition MAX_MANIFEST_FILE_INFO_ENTRIES :: nat where
  "MAX_MANIFEST_FILE_INFO_ENTRIES = 10000"

record file_entry =
  path_len :: "16 word"
  path :: string

record FileInfo =
  index :: "32 word"
  digest :: digest
  fsize :: "64 word"
  mtime :: "64 word"
  ctime :: "64 word"

record result =
  file_info_indexes :: "32 word list"
  name :: digest

record manifest =
  files :: "file_entry list"
  file_infos :: "FileInfo list"
  results :: "result list"

record file_stats =
  fs_size :: "64 word"
  fs_mtime :: "64 word"
  fs_ctime :: "64 word"

text \<open>
  What \<open>stat(2)\<close> reports about a path, as far as the code looks at it. \<open>st_size\<close>,
  \<open>st_mtime\<close> and \<open>st_ctime\<close> are 64-bit signed values (\<open>off_t\<close>, \<open>time_t\<close>); they
  are compared as signed numbers through \<open>sint\<close>.
\<close>

datatype file_kind = S_IFREG | S_IFDIR | S_IFOTHER

record stat =
  st_mode :: file_kind
  st_size :: "64 word"
  st_mtime :: "64 word"
  st_ctime :: "64 word"

definition n_files :: "manifest \<Rightarrow> nat" where
  "n_files mf = length (files mf)"

definition n_file_infos :: "manifest \<Rightarrow> nat" where
  "n_file_infos mf = length (file_infos mf)"

definition n_results :: "manifest \<Rightarrow> nat" where
  "n_results mf = length (results mf)"

definition create_empty_manifest :: manifest where
  "create_empty_manifest = \<lparr>files = [], file_infos = [], results = []\<rparr>"

section \<open>Adding a result entry (manifest.cpp)\<close>

text \<open>
  \<open>create_file_index_map\<close> and \<open>create_file_info_index_map\<close> fill an
  \<open>unordered_map\<close> with \<open>emplace\<close>, going up through the array: the first entry
  with a given key stays. \<open>map_of\<close> on the zipped list finds the first entry as well.
\<close>

definition create_file_index_map :: "file_entry list \<Rightarrow> (string \<rightharpoonup> 32 word)" where
  "create_file_index_map fs = map_of (zip (map path fs) (map of_nat [0..<length fs]))"

definition create_file_info_index_map :: "FileInfo list \<Rightarrow> (FileInfo \<rightharpoonup> 32 word)" where
  "create_file_info_index_map infos = map_of (zip infos (map of_nat [0..<length infos]))"

definition get_include_file_index ::
  "manifest \<Rightarrow> string \<Rightarrow> (string \<rightharpoonup> 32 word) \<Rightarrow> 32 word \<times> manifest" where
  "get_include_file_index mf p mf_files =
     (case mf_files p of
        Some i \<Rightarrow> (i, mf)
      | None \<Rightarrow>
          (of_nat (n_files mf),
           mf\<lparr>files := files mf @ [\<lparr>path_len = of_nat (length p), path = p\<rparr>]\<rparr>))"

text \<open>\<open>std::max\<close> on two \<open>time_t\<close> values.\<close>

definition std_max :: "64 word \<Rightarrow> 64 word \<Rightarrow> 64 word" where
  "std_max a b = (if sint a < sint b then b else a)"

text \<open>
  The \<open>FileInfo\<close> that \<open>get_file_info_index\<close> builds before it looks it up:
  \<open>stat_fn\<close> is the file system at the time of the call (\<open>None\<close> when \<open>stat\<close>
  returns -1), \<open>toc\<close> is the global \<open>time_of_compilation\<close>.
\<close>

definition make_file_info ::
  "(string \<Rightarrow> stat option) \<Rightarrow> 64 word \<Rightarrow> 32 word \<Rightarrow> string \<Rightarrow> digest \<Rightarrow> FileInfo" where
  "make_file_info stat_fn toc idx p d =
     (case stat_fn p of
        Some file_stat \<Rightarrow>
          if sint (std_max (st_mtime file_stat) (st_ctime file_stat)) < sint toc
          then \<lparr>index = idx, digest = d, fsize = st_size file_stat,
                mtime = st_mtime file_stat, ctime = st_ctime file_stat\<rparr>
          else \<lparr>index = idx, digest = d, fsize = st_size file_stat, mtime = - 1, ctime = - 1\<rparr>
      | None \<Rightarrow> \<lparr>index = idx, digest = d, fsize = 0, mtime = - 1, ctime = - 1\<rparr>)"

definition get_file_info_index ::
  "(string \<Rightarrow> stat option) \<Rightarrow> 64 word \<Rightarrow> manifest \<Rightarrow> string \<Rightarrow> digest \<Rightarrow>
   (string \<rightharpoonup> 32 word) \<Rightarrow> (FileInfo \<rightharpoonup> 32 word) \<Rightarrow> 32 word \<times> manifest" where
  "get_file_info_index stat_fn toc mf p d mf_files mf_file_infos =
     (let (idx, mf1) = get_include_file_index mf p mf_files;
          fi = make_file_info stat_fn toc idx p d
      in case mf_file_infos fi of
           Some i \<Rightarrow> (i, mf1)
         | None \<Rightarrow> (of_nat (n_file_infos mf1), mf1\<lparr>file_infos := file_infos mf1 @ [fi]\<rparr>))"

text \<open>
  The loop of \<open>add_file_info_indexes\<close> over \<open>included_files\<close>. The
  \<open>unordered_map\<close> is given as the list of its items in iteration order (the paths
  are its keys, so they are distinct). The two index maps are built once, before the
  loop, and are not updated while the loop appends to the manifest.
\<close>

fun add_file_info_indexes_loop ::
  "(string \<Rightarrow> stat option) \<Rightarrow> 64 word \<Rightarrow> (string \<rightharpoonup> 32 word) \<Rightarrow> (FileInfo \<rightharpoonup> 32 word) \<Rightarrow>
   manifest \<Rightarrow> (string \<times> digest) list \<Rightarrow> 32 word list \<times> manifest" where
  "add_file_info_indexes_loop stat_fn toc mf_files mf_file_infos mf [] = ([], mf)"
| "add_file_info_indexes_loop stat_fn toc mf_files mf_file_infos mf ((p, d) # items) =
     (let (i, mf1) = get_file_info_index stat_fn toc mf p d mf_files mf_file_infos;
          (idxs, mf2) = add_file_info_indexes_loop stat_fn toc mf_files mf_file_infos mf1 items
      in (i # idxs, mf2))"

definition add_file_info_indexes ::
  "(string \<Rightarrow> stat option) \<Rightarrow> 64 word \<Rightarrow> manifest \<Rightarrow> (string \<times> digest) list \<Rightarrow>
   32 word list \<times> manifest" where
  "add_file_info_indexes stat_fn toc mf included_files =
     (if length included_files = 0 then ([], mf)
      else add_file_info_indexes_loop stat_fn toc
             (create_file_index_map (files mf))
             (create_file_info_index_map (file_infos mf)) mf included_files)"

text \<open>
  \<open>add_result_entry\<close> reserves the slot \<open>results[n_results]\<close>, fills its index array
  and sets its name; the tables grow meanwhile.
\<close>

definition add_result_entry ::
  "(string \<Rightarrow> stat option) \<Rightarrow> 64 word \<Rightarrow> manifest \<Rightarrow> digest \<Rightarrow> (string \<times> digest) list \<Rightarrow>
   manifest" where
  "add_result_entry stat_fn toc mf result_digest included_files =
     (let (indexes, mf1) = add_file_info_indexes stat_fn toc mf included_files
      in mf1\<lparr>results := results mf1 @ [\<lparr>file_info_indexes = indexes, name = result_digest\<rparr>]\<rparr>)"

text \<open>
  The manifest that \<open>manifest_put\<close> hands to \<open>write_manifest\<close>. \<open>prior\<close> is what
  \<open>read_manifest\<close> returned for the manifest path (\<open>None\<close> for a new or corrupt
  file).
\<close>

definition manifest_put_mf ::
  "(string \<Rightarrow> stat option) \<Rightarrow> 64 word \<Rightarrow> manifest option \<Rightarrow> digest \<Rightarrow> (string \<times> digest) list \<Rightarrow>
   manifest" where
  "manifest_put_mf stat_fn toc prior result_name included_files =
     (let mf = (case prior of Some m \<Rightarrow> m | None \<Rightarrow> create_empty_manifest);
          mf' = (if n_results mf > MAX_MANIFEST_ENTRIES then create_empty_manifest
                 else if n_file_infos mf > MAX_MANIFEST_FILE_INFO_ENTRIES
                 then create_empty_manifest
                 else mf)
      in add_result_entry stat_fn toc mf' result_name included_files)"

section \<open>The manifest file format (manifest.cpp)\<close>

text \<open>
  Paths are C strings; in the file they are bytes. The two conversions are the
  identity on the 256 character codes.
\<close>

definition byte_of_char :: "char \<Rightarrow> byte" where
  "byte_of_char c = of_nat (of_char c)"

definition char_of_byte :: "byte \<Rightarrow> char" where
  "char_of_byte b = char_of (unat b)"

text \<open>
  Modelled from the spec: the conversion macros of \<open>int_bytes_conversion.hpp\<close>, which
  is not among the sources. The format comment of manifest.cpp and the spec (4.5) say
  that integers are big-endian and of fixed width. \<open>int64_t\<close> and \<open>uint64_t\<close> values
  are both 64-bit words here, so the signed conversions are the unsigned ones.
\<close>

definition BYTES_FROM_UINT16 :: "16 word \<Rightarrow> byte list" where
  "BYTES_FROM_UINT16 v = [ucast (drop_bit 8 v), ucast v]"

definition UINT16_FROM_BYTES :: "byte list \<Rightarrow> 16 word" where
  "UINT16_FROM_BYTES b = push_bit 8 (ucast (b ! 0)) OR ucast (b ! 1)"

definition BYTES_FROM_UINT32 :: "32 word \<Rightarrow> byte list" where
  "BYTES_FROM_UINT32 v =
     [ucast (drop_bit 24 v), ucast (drop_bit 16 v), ucast (drop_bit 8 v), ucast v]"

definition UINT32_FROM_BYTES :: "byte list \<Rightarrow> 32 word" where
  "UINT32_FROM_BYTES b =
     push_bit 24 (ucast (b ! 0)) OR push_bit 16 (ucast (b ! 1)) OR
     push_bit 8 (ucast (b ! 2)) OR ucast (b ! 3)"

definition BYTES_FROM_UINT64 :: "64 word \<Rightarrow> byte list" where
  "BYTES_FROM_UINT64 v =
     [ucast (drop_bit 56 v), ucast (drop_bit 48 v), ucast (drop_bit 40 v),
      ucast (drop_bit 32 v), ucast (drop_bit 24 v), ucast (drop_bit 16 v),
      ucast (drop_bit 8 v), ucast v]"

definition UINT64_FROM_BYTES :: "byte list \<Rightarrow> 64 word" where
  "UINT64_FROM_BYTES b =
     push_bit 56 (ucast (b ! 0)) OR push_bit 48 (ucast (b ! 1)) OR
     push_bit 40 (ucast (b ! 2)) OR push_bit 32 (ucast (b ! 3)) OR
     push_bit 24 (ucast (b ! 4)) OR push_bit 16 (ucast (b ! 5)) OR
     push_bit 8 (ucast (b ! 6)) OR ucast (b ! 7)"

definition BYTES_FROM_INT64 :: "64 word \<Rightarrow> byte list" where
  "BYTES_FROM_INT64 v = BYTES_FROM_UINT64 v"

definition INT64_FROM_BYTES :: "byte list \<Rightarrow> 64 word" where
  "INT64_FROM_BYTES b = UINT64_FROM_BYTES b"

text \<open>
  Modelled from the spec: the common header and the stream layer
  (\<open>common_header.hpp\<close>, \<open>compression.hpp\<close> and the XXH64 library are not among the
  sources). Spec 4.5: the header is \<open>magic (4) | version u8 | compr u8 | level i8 |
  content_len u64\<close>, \<open>compr\<close> is 0 (none) or 1 (zstd), and the checksum is the XXH64 of
  all body bytes after the header. The compressor, the decompressor and XXH64 are
  parameters: \<open>compressor t\<close> maps the bytes written through it to the bytes that reach
  the file (\<open>None\<close> when a write fails), \<open>decompressor t\<close> maps the bytes of the file
  after the header to the stream that \<open>read\<close> delivers (\<open>None\<close> for an unknown type
  or undecodable data). \<open>MANIFEST_VERSION\<close> is 2 by the version history in
  manifest.cpp.
\<close>

record stream_env =
  compression_type_from_config :: byte
  compression_level_from_config :: byte
  compressor :: "byte \<Rightarrow> byte list \<Rightarrow> byte list option"
  decompressor :: "byte \<Rightarrow> byte list \<Rightarrow> byte list option"
  XXH64 :: "byte list \<Rightarrow> 64 word"

definition MANIFEST_MAGIC :: "byte list" where
  "MANIFEST_MAGIC = map byte_of_char ''cCmF''"

definition MANIFEST_VERSION :: byte where
  "MANIFEST_VERSION = 2"

definition COMMON_HEADER_SIZE :: nat where
  "COMMON_HEADER_SIZE = 15"

definition common_header_bytes :: "byte \<Rightarrow> byte \<Rightarrow> 64 word \<Rightarrow> byte list" where
  "common_header_bytes compr_type compr_level content_size =
     MANIFEST_MAGIC @ [MANIFEST_VERSION, compr_type, compr_level]
       @ BYTES_FROM_UINT64 content_size"

text \<open>
  The state of a decompressor: the bytes it has delivered so far (they have gone into
  the running checksum) and the bytes still to come. \<open>READ_BYTES\<close> fails on a short
  stream; every \<open>READ_\<close> macro jumps to \<open>out\<close> then, which is \<open>None\<close> here.
\<close>

record decompr_state =
  checksum_input :: "byte list"
  remaining :: "byte list"

definition READ_BYTES :: "nat \<Rightarrow> decompr_state \<Rightarrow> (byte list \<times> decompr_state) option" where
  "READ_BYTES n st =
     (if length (remaining st) < n then None
      else Some (take n (remaining st),
                 \<lparr>checksum_input = checksum_input st @ take n (remaining st),
                  remaining = drop n (remaining st)\<rparr>))"

definition READ_UINT16 :: "decompr_state \<Rightarrow> (16 word \<times> decompr_state) option" where
  "READ_UINT16 st = do { (buf, st') \<leftarrow> READ_BYTES 2 st; Some (UINT16_FROM_BYTES buf, st') }"

definition READ_UINT32 :: "decompr_state \<Rightarrow> (32 word \<times> decompr_state) option" where
  "READ_UINT32 st = do { (buf, st') \<leftarrow> READ_BYTES 4 st; Some (UINT32_FROM_BYTES buf, st') }"

definition READ_INT64 :: "decompr_state \<Rightarrow> (64 word \<times> decompr_state) option" where
  "READ_INT64 st = do { (buf, st') \<leftarrow> READ_BYTES 8 st; Some (INT64_FROM_BYTES buf, st') }"

definition READ_UINT64 :: "decompr_state \<Rightarrow> (64 word \<times> decompr_state) option" where
  "READ_UINT64 st = do { (buf, st') \<leftarrow> READ_BYTES 8 st; Some (UINT64_FROM_BYTES buf, st') }"

text \<open>
  \<open>READ_STR\<close> reads the length, then that many bytes into a fresh buffer and ends it
  with a NUL. As a C string the path stops at the first NUL.
\<close>

definition READ_STR :: "decompr_state \<Rightarrow> (file_entry \<times> decompr_state) option" where
  "READ_STR st = do {
     (len, st1) \<leftarrow> READ_UINT16 st;
     (buf, st2) \<leftarrow> READ_BYTES (unat len) st1;
     Some (\<lparr>path_len = len,
            path = takeWhile (\<lambda>c. c \<noteq> CHR 0x00) (map char_of_byte buf)\<rparr>, st2) }"

text \<open>A loop \<open>for (i = 0; i < n; i++)\<close> that reads one array element per round.\<close>

fun read_n ::
  "nat \<Rightarrow> (decompr_state \<Rightarrow> ('a \<times> decompr_state) option) \<Rightarrow> decompr_state \<Rightarrow>
   ('a list \<times> decompr_state) option" where
  "read_n 0 rd st = Some ([], st)"
| "read_n (Suc n) rd st = do {
     (x, st1) \<leftarrow> rd st;
     (xs, st2) \<leftarrow> read_n n rd st1;
     Some (x # xs, st2) }"

definition read_file_info :: "decompr_state \<Rightarrow> (FileInfo \<times> decompr_state) option" where
  "read_file_info st = do {
     (i, st1) \<leftarrow> READ_UINT32 st;
     (d, st2) \<leftarrow> READ_BYTES DIGEST_SIZE st1;
     (sz, st3) \<leftarrow> READ_UINT64 st2;
     (m, st4) \<leftarrow> READ_INT64 st3;
     (c, st5) \<leftarrow> READ_INT64 st4;
     Some (\<lparr>index = i, digest = d, fsize = sz, mtime = m, ctime = c\<rparr>, st5) }"

definition read_result :: "decompr_state \<Rightarrow> (result \<times> decompr_state) option" where
  "read_result st = do {
     (n, st1) \<leftarrow> READ_UINT32 st;
     (idxs, st2) \<leftarrow> read_n (unat n) READ_UINT32 st1;
     (nm, st3) \<leftarrow> READ_BYTES DIGEST_SIZE st2;
     Some (\<lparr>file_info_indexes = idxs, name = nm\<rparr>, st3) }"

text \<open>
  The body of \<open>read_manifest\<close> between the header and the label \<open>out\<close>: the three
  tables, then the checksum of everything delivered so far, then the stored checksum.
  The result is the manifest with the actual and the expected checksum.
\<close>

definition read_manifest_body ::
  "(byte list \<Rightarrow> 64 word) \<Rightarrow> decompr_state \<Rightarrow> (manifest \<times> 64 word \<times> 64 word) option" where
  "read_manifest_body xxh st = do {
     (nf, st1) \<leftarrow> READ_UINT32 st;
     (fs, st2) \<leftarrow> read_n (unat nf) READ_STR st1;
     (nfi, st3) \<leftarrow> READ_UINT32 st2;
     (fis, st4) \<leftarrow> read_n (unat nfi) read_file_info st3;
     (nr, st5) \<leftarrow> READ_UINT32 st4;
     (rs, st6) \<leftarrow> read_n (unat nr) read_result st5;
     (expected_checksum, st7) \<leftarrow> READ_UINT64 st6;
     Some (\<lparr>files = fs, file_infos = fis, results = rs\<rparr>,
           xxh (checksum_input st6), expected_checksum) }"

text \<open>
  Modelled from the spec: \<open>common_header_initialize_for_reading\<close>. It reads the 15
  header bytes, checks the magic and the version, and sets up the decompressor that the
  header names.
\<close>

definition common_header_initialize_for_reading ::
  "stream_env \<Rightarrow> byte list \<Rightarrow> decompr_state option" where
  "common_header_initialize_for_reading env bytes =
     (if length bytes < COMMON_HEADER_SIZE then None
      else if take 4 bytes \<noteq> MANIFEST_MAGIC then None
      else if bytes ! 4 \<noteq> MANIFEST_VERSION then None
      else case decompressor env (bytes ! 5) (drop COMMON_HEADER_SIZE bytes) of
             None \<Rightarrow> None
           | Some stream \<Rightarrow> Some \<lparr>checksum_input = [], remaining = stream\<rparr>)"

datatype read_error =
    No_such_manifest_file
  | Bad_header
  | Corrupt_manifest_file
  | Incorrect_checksum "64 word" "64 word"

text \<open>
  \<open>read_manifest\<close>: the file is \<open>None\<close> when \<open>fopen\<close> fails. The \<open>free\<close> of the
  decompressor is taken to report only the failure of an earlier read, which has ended
  the parse already.
\<close>

definition read_manifest :: "stream_env \<Rightarrow> byte list option \<Rightarrow> read_error + manifest" where
  "read_manifest env f =
     (case f of
        None \<Rightarrow> Inl No_such_manifest_file
      | Some bytes \<Rightarrow>
          (case common_header_initialize_for_reading env bytes of
             None \<Rightarrow> Inl Bad_header
           | Some st \<Rightarrow>
               (case read_manifest_body (XXH64 env) st of
                  None \<Rightarrow> Inl Corrupt_manifest_file
                | Some (mf, actual_checksum, expected_checksum) \<Rightarrow>
                    if actual_checksum = expected_checksum then Inr mf
                    else Inl (Incorrect_checksum actual_checksum expected_checksum))))"

text \<open>
  \<open>write_manifest\<close>. The content size adds up in a \<open>uint64_t\<close>; the two products
  \<open>n_file_infos * 48\<close> and \<open>n_file_info_indexes * 4\<close> are computed in 32 bits first.
\<close>

definition content_size_of :: "manifest \<Rightarrow> 64 word" where
  "content_size_of mf =
     of_nat COMMON_HEADER_SIZE + 4
       + sum_list (map (\<lambda>f. 2 + ucast (path_len f)) (files mf))
       + 4
       + ucast ((of_nat (n_file_infos mf) :: 32 word) * (4 + of_nat DIGEST_SIZE + 8 + 8 + 8))
       + 4
       + sum_list (map (\<lambda>r. 4 + ucast ((of_nat (length (file_info_indexes r)) :: 32 word) * 4)
                            + of_nat DIGEST_SIZE) (results mf))
       + 8"

definition write_file_entry :: "file_entry \<Rightarrow> byte list" where
  "write_file_entry f =
     BYTES_FROM_UINT16 (path_len f) @ take (unat (path_len f)) (map byte_of_char (path f))"

definition write_file_info :: "FileInfo \<Rightarrow> byte list" where
  "write_file_info fi =
     BYTES_FROM_UINT32 (index fi) @ take DIGEST_SIZE (digest fi) @ BYTES_FROM_UINT64 (fsize fi)
       @ BYTES_FROM_INT64 (mtime fi) @ BYTES_FROM_INT64 (ctime fi)"

definition write_result :: "result \<Rightarrow> byte list" where
  "write_result r =
     BYTES_FROM_UINT32 (of_nat (length (file_info_indexes r)))
       @ concat (map BYTES_FROM_UINT32 (file_info_indexes r))
       @ take DIGEST_SIZE (name r)"

definition manifest_body :: "manifest \<Rightarrow> byte list" where
  "manifest_body mf =
     BYTES_FROM_UINT32 (of_nat (n_files mf)) @ concat (map write_file_entry (files mf))
       @ BYTES_FROM_UINT32 (of_nat (n_file_infos mf)) @ concat (map write_file_info (file_infos mf))
       @ BYTES_FROM_UINT32 (of_nat (n_results mf)) @ concat (map write_result (results mf))"

definition write_manifest :: "stream_env \<Rightarrow> manifest \<Rightarrow> byte list option" where
  "write_manifest env mf =
     (let body = manifest_body mf;
          stream = body @ BYTES_FROM_UINT64 (XXH64 env body)
      in case compressor env (compression_type_from_config env) stream of
           None \<Rightarrow> None
         | Some out \<Rightarrow>
             Some (common_header_bytes (compression_type_from_config env)
                     (compression_level_from_config env) (content_size_of mf) @ out))"

text \<open>
  The manifests that the C structs can hold: every count fits its \<open>uint32_t\<close>,
  \<open>path_len\<close> is \<open>strlen(path)\<close>, and a digest has \<open>DIGEST_SIZE\<close> bytes.
\<close>

definition representable :: "manifest \<Rightarrow> bool" where
  "representable mf \<longleftrightarrow>
     length (files mf) < 2 ^ 32 \<and> length (file_infos mf) < 2 ^ 32 \<and>
     length (results mf) < 2 ^ 32 \<and>
     list_all (\<lambda>f. unat (path_len f) = length (path f) \<and> CHR 0x00 \<notin> set (path f)) (files mf) \<and>
     list_all (\<lambda>fi. length (digest fi) = DIGEST_SIZE) (file_infos mf) \<and>
     list_all (\<lambda>r. length (file_info_indexes r) < 2 ^ 32 \<and> length (name r) = DIGEST_SIZE)
       (results mf)"

text \<open>A stream layer whose decompressor undoes its compressor.\<close>

definition stream_roundtrip :: "stream_env \<Rightarrow> bool" where
  "stream_roundtrip env \<longleftrightarrow>
     (\<forall>t bs out. compressor env t bs = Some out \<longrightarrow> decompressor env t out = Some bs)"

text \<open>
  A reader \<open>rd\<close> inverts a writer \<open>wr\<close> at \<open>x\<close>: from any state whose stream starts
  with \<open>wr x\<close> it returns \<open>x\<close>, having consumed exactly those bytes.
\<close>

definition inverts ::
  "(decompr_state \<Rightarrow> ('a \<times> decompr_state) option) \<Rightarrow> ('a \<Rightarrow> byte list) \<Rightarrow> 'a \<Rightarrow> bool" where
  "inverts rd wr x \<longleftrightarrow>
     (\<forall>ci rest. rd \<lparr>checksum_input = ci, remaining = wr x @ rest\<rparr>
        = Some (x, \<lparr>checksum_input = ci @ wr x, remaining = rest\<rparr>))"

section \<open>Looking a result up in the manifest (manifest.cpp)\<close>

text \<open>
  The configuration and the bit masks. \<open>config.sloppiness()\<close> is a bit mask and the
  return value of the source hasher is one as well; the code only ever tests single
  bits of them (\<open>mask & BIT\<close>), so the model keeps each mask as the set of its bits.
  The numeric values of the bits are in headers that are not among the sources.
\<close>

datatype sloppy =
    SLOPPY_INCLUDE_FILE_MTIME
  | SLOPPY_INCLUDE_FILE_CTIME
  | SLOPPY_TIME_MACROS
  | SLOPPY_PCH_DEFINES
  | SLOPPY_FILE_STAT_MATCHES
  | SLOPPY_FILE_STAT_MATCHES_CTIME
  | SLOPPY_SYSTEM_HEADERS
  | SLOPPY_CLANG_INDEX_STORE
  | SLOPPY_LOCALE
  | SLOPPY_FILE_MACRO

datatype hash_flag =
    HASH_SOURCE_CODE_ERROR
  | HASH_SOURCE_CODE_FOUND_DATE
  | HASH_SOURCE_CODE_FOUND_TIME

datatype guessed_compiler =
    GUESSED_CLANG
  | GUESSED_GCC
  | GUESSED_NVCC
  | GUESSED_PUMP
  | GUESSED_UNKNOWN

record Config =
  sloppiness :: "sloppy set"
  direct_mode :: bool
  pch_external_checksum :: bool

text \<open>
  What \<open>verify_result\<close> reads besides its arguments: the file system (\<open>x_stat\<close>,
  \<open>None\<close> when it fails), the source hasher run on a fresh hash (its flags and the
  digest of the hash afterwards), and the globals \<open>guessed_compiler\<close> and
  \<open>output_is_precompiled_header\<close>. The file system does not change during one call of
  \<open>manifest_get\<close>.
\<close>

record verify_env =
  x_stat :: "string \<Rightarrow> stat option"
  hash_source_code_file :: "Config \<Rightarrow> string \<Rightarrow> hash_flag set \<times> digest"
  the_guessed_compiler :: guessed_compiler
  output_is_precompiled_header :: bool

text \<open>The two caches that \<open>manifest_get\<close> keeps across the entries it tries.\<close>

record caches =
  stated_files :: "string \<rightharpoonup> file_stats"
  hashed_files :: "string \<rightharpoonup> digest"

text \<open>
  C arrays are read without a bounds check. An index beyond its table is undefined
  behaviour in C; the model stops with \<open>Out_of_bounds\<close> there.
\<close>

datatype 'a c_result = Out_of_bounds | Returns 'a

text \<open>
  The first part of the loop body of \<open>verify_result\<close>: the cached \<open>stat\<close>.
  \<open>None\<close> is the \<open>return false\<close> after a failed \<open>x_stat\<close>.
\<close>

definition lookup_stat :: "verify_env \<Rightarrow> string \<Rightarrow> caches \<Rightarrow> (file_stats \<times> caches) option" where
  "lookup_stat env p c =
     (case stated_files c p of
        Some fs \<Rightarrow> Some (fs, c)
      | None \<Rightarrow>
          (case x_stat env p of
             None \<Rightarrow> None
           | Some file_stat \<Rightarrow>
               (let st = \<lparr>fs_size = st_size file_stat, fs_mtime = st_mtime file_stat,
                          fs_ctime = st_ctime file_stat\<rparr>
                in Some (st, c\<lparr>stated_files := (stated_files c)(p \<mapsto> st)\<rparr>))))"

text \<open>
  The \<open>continue\<close> of the sloppy branch: with \<open>file_stat_matches\<close> set, the entry is
  accepted on its time stamps alone, \<open>mtime\<close> and \<open>ctime\<close> or, with
  \<open>file_stat_matches_ctime\<close> set as well, \<open>mtime\<close> only.
\<close>

definition stat_matches :: "Config \<Rightarrow> FileInfo \<Rightarrow> file_stats \<Rightarrow> bool" where
  "stat_matches config fi fs \<longleftrightarrow>
     SLOPPY_FILE_STAT_MATCHES \<in> sloppiness config \<and>
     (if SLOPPY_FILE_STAT_MATCHES_CTIME \<notin> sloppiness config
      then mtime fi = fs_mtime fs \<and> ctime fi = fs_ctime fs
      else mtime fi = fs_mtime fs)"

text \<open>
  The last part of the loop body: the cached hash. \<open>None\<close> is the \<open>return false\<close>
  after a hashing error or a temporal macro; nothing is cached then.
\<close>

definition lookup_hash :: "verify_env \<Rightarrow> Config \<Rightarrow> string \<Rightarrow> caches \<Rightarrow> (digest \<times> caches) option" where
  "lookup_hash env config p c =
     (case hashed_files c p of
        Some d \<Rightarrow> Some (d, c)
      | None \<Rightarrow>
          (let (ret, actual) = hash_source_code_file env config p
           in if HASH_SOURCE_CODE_ERROR \<in> ret then None
              else if HASH_SOURCE_CODE_FOUND_TIME \<in> ret then None
              else Some (actual, c\<lparr>hashed_files := (hashed_files c)(p \<mapsto> actual)\<rparr>)))"

text \<open>
  One round of the loop of \<open>verify_result\<close> for the FileInfo \<open>fi\<close> of the file \<open>p\<close>:
  \<open>False\<close> is \<open>return false\<close>, \<open>True\<close> goes on to the next index.
\<close>

definition verify_file_info ::
  "verify_env \<Rightarrow> Config \<Rightarrow> FileInfo \<Rightarrow> string \<Rightarrow> caches \<Rightarrow> bool \<times> caches" where
  "verify_file_info env config fi p c =
     (case lookup_stat env p c of
        None \<Rightarrow> (False, c)
      | Some (fs, c1) \<Rightarrow>
          if fsize fi \<noteq> fs_size fs then (False, c1)
          else if (the_guessed_compiler env = GUESSED_CLANG
                   \<or> the_guessed_compiler env = GUESSED_UNKNOWN)
                  \<and> output_is_precompiled_header env \<and> mtime fi \<noteq> fs_mtime fs
          then (False, c1)
          else if stat_matches config fi fs then (True, c1)
          else (case lookup_hash env config p c1 of
                  None \<Rightarrow> (False, c1)
                | Some (actual, c2) \<Rightarrow> (digest fi = actual, c2)))"

fun verify_result_loop ::
  "verify_env \<Rightarrow> Config \<Rightarrow> manifest \<Rightarrow> 32 word list \<Rightarrow> caches \<Rightarrow> (bool \<times> caches) c_result" where
  "verify_result_loop env config mf [] c = Returns (True, c)"
| "verify_result_loop env config mf (k # ks) c =
     (if length (file_infos mf) \<le> unat k then Out_of_bounds
      else let fi = file_infos mf ! unat k in
        if length (files mf) \<le> unat (index fi) then Out_of_bounds
        else let (ok, c1) = verify_file_info env config fi (path (files mf ! unat (index fi))) c
             in if ok then verify_result_loop env config mf ks c1 else Returns (False, c1))"

definition verify_result ::
  "verify_env \<Rightarrow> Config \<Rightarrow> manifest \<Rightarrow> result \<Rightarrow> caches \<Rightarrow> (bool \<times> caches) c_result" where
  "verify_result env config mf r c = verify_result_loop env config mf (file_info_indexes r) c"

text \<open>
  The loop of \<open>manifest_get\<close> goes down from the newest entry; \<open>rs\<close> is the list of
  the entries still to try, newest first. \<open>None\<close> is the \<open>NULL\<close> result.
\<close>

fun manifest_get_loop ::
  "verify_env \<Rightarrow> Config \<Rightarrow> manifest \<Rightarrow> result list \<Rightarrow> caches \<Rightarrow> digest option c_result" where
  "manifest_get_loop env config mf [] c = Returns None"
| "manifest_get_loop env config mf (r # rs) c =
     (case verify_result env config mf r c of
        Out_of_bounds \<Rightarrow> Out_of_bounds
      | Returns (ok, c1) \<Rightarrow>
          if ok then Returns (Some (name r)) else manifest_get_loop env config mf rs c1)"

definition manifest_get ::
  "verify_env \<Rightarrow> stream_env \<Rightarrow> Config \<Rightarrow> byte list option \<Rightarrow> digest option c_result" where
  "manifest_get env senv config manifest_file =
     (case read_manifest senv manifest_file of
        Inl errmsg \<Rightarrow> Returns None
      | Inr mf \<Rightarrow>
          manifest_get_loop env config mf (rev (results mf))
            \<lparr>stated_files = Map.empty, hashed_files = Map.empty\<rparr>)"

text \<open>
  What the verification of one FileInfo establishes about the file as it is now:
  the size is the recorded one, the mtime is the recorded one if a clang-like compiler
  writes a precompiled header, and either the time stamps were accepted under
  \<open>file_stat_matches\<close>, or the file was hashed without an error and without a temporal
  macro and its digest is the recorded one.
\<close>

definition file_info_verified :: "verify_env \<Rightarrow> Config \<Rightarrow> FileInfo \<Rightarrow> string \<Rightarrow> bool" where
  "file_info_verified env config fi p \<longleftrightarrow>
     (case x_stat env p of
        None \<Rightarrow> False
      | Some st \<Rightarrow>
          fsize fi = st_size st \<and>
          \<not> ((the_guessed_compiler env = GUESSED_CLANG
                \<or> the_guessed_compiler env = GUESSED_UNKNOWN)
               \<and> output_is_precompiled_header env \<and> mtime fi \<noteq> st_mtime st) \<and>
          ((SLOPPY_FILE_STAT_MATCHES \<in> sloppiness config \<and>
            (if SLOPPY_FILE_STAT_MATCHES_CTIME \<in> sloppiness config
             then mtime fi = st_mtime st
             else mtime fi = st_mtime st \<and> ctime fi = st_ctime st))
           \<or> (HASH_SOURCE_CODE_ERROR \<notin> fst (hash_source_code_file env config p) \<and>
               HASH_SOURCE_CODE_FOUND_TIME \<notin> fst (hash_source_code_file env config p) \<and>
               digest fi = snd (hash_source_code_file env config p))))"

text \<open>The caches hold what the file system and the hasher return.\<close>

definition caches_ok :: "verify_env \<Rightarrow> Config \<Rightarrow> caches \<Rightarrow> bool" where
  "caches_ok env config c \<longleftrightarrow>
     (\<forall>p fs. stated_files c p = Some fs \<longrightarrow>
        (\<exists>st. x_stat env p = Some st \<and>
           fs = \<lparr>fs_size = st_size st, fs_mtime = st_mtime st, fs_ctime = st_ctime st\<rparr>)) \<and>
     (\<forall>p d. hashed_files c p = Some d \<longrightarrow>
        HASH_SOURCE_CODE_ERROR \<notin> fst (hash_source_code_file env config p) \<and>
        HASH_SOURCE_CODE_FOUND_TIME \<notin> fst (hash_source_code_file env config p) \<and>
        d = snd (hash_source_code_file env config p))"

text \<open>All FileInfos that an entry refers to are in range and verified.\<close>

definition entry_verified :: "verify_env \<Rightarrow> Config \<Rightarrow> manifest \<Rightarrow> result \<Rightarrow> bool" where
  "entry_verified env config mf r \<longleftrightarrow>
     list_all (\<lambda>k. unat k < length (file_infos mf) \<and>
                 (let fi = file_infos mf ! unat k
                  in unat (index fi) < length (files mf) \<and>
                     file_info_verified env config fi (path (files mf ! unat (index fi)))))
       (file_info_indexes r)"

text \<open>
  The file \<open>p\<close> has to be hashed again for the FileInfo \<open>fi\<close> (its time stamps are not
  accepted under \<open>file_stat_matches\<close>) and the hasher reports a temporal macro in it.
\<close>

definition rehash_finds_time :: "verify_env \<Rightarrow> Config \<Rightarrow> FileInfo \<Rightarrow> string \<Rightarrow> bool" where
  "rehash_finds_time env config fi p \<longleftrightarrow>
     (case x_stat env p of
        None \<Rightarrow> False
      | Some st \<Rightarrow>
          \<not> stat_matches config fi
              \<lparr>fs_size = st_size st, fs_mtime = st_mtime st, fs_ctime = st_ctime st\<rparr>) \<and>
     HASH_SOURCE_CODE_FOUND_TIME \<in> fst (hash_source_code_file env config p)"

section \<open>Hashing (ccache.cpp)\<close>

text \<open>
  Modelled from the spec: the streaming hash of \<open>hash.hpp\<close>, which is not among the
  sources. Spec 4.1: a hash is fed bytes (\<open>update\<close>) and delimiters
  (\<open>update_delimiter\<close>), and \<open>finish\<close> gives the digest of everything fed. The state
  of a \<open>struct hash\<close> is the list of what has been fed to it so far, oldest first;
  the digest is a function of that list. \<open>hash_string\<close> feeds a whole C string,
  \<open>hash_string_buffer\<close> its first \<open>n\<close> characters, \<open>hash_int\<close> a number,
  \<open>hash_file\<close> the content of a file. What functions outside the sources feed
  (the source hasher) stays as they report it.
\<close>

datatype hash_op =
    Hash_delimiter string
  | Hash_buffer string
  | Hash_int int
  | Hash_file_content string

type_synonym hash = "hash_op list"

definition hash_init :: hash where
  "hash_init = []"

definition hash_delimiter :: "hash \<Rightarrow> string \<Rightarrow> hash" where
  "hash_delimiter h type = h @ [Hash_delimiter type]"

definition hash_string_buffer :: "hash \<Rightarrow> string \<Rightarrow> nat \<Rightarrow> hash" where
  "hash_string_buffer h s n = h @ [Hash_buffer (take n s)]"

definition hash_string :: "hash \<Rightarrow> string \<Rightarrow> hash" where
  "hash_string h s = hash_string_buffer h s (length s)"

definition hash_int :: "hash \<Rightarrow> int \<Rightarrow> hash" where
  "hash_int h x = h @ [Hash_int x]"

section \<open>Remembering an include file (ccache.cpp)\<close>














section \<open>After the real compiler has run (to_cache in ccache.cpp)\<close>

text \<open>
  \<open>to_cache\<close> runs the real compiler with its output going to two temporary files and
  then decides what to do with the outcome. The model starts after \<open>execute\<close> has
  returned. What the process does to the outside is a list of events, in order; how it
  ends is an outcome: \<open>failed()\<close> replaces the process by the real compiler run on
  the original arguments, \<open>x_exit\<close> ends it with a status, or \<open>to_cache\<close> returns.
\<close>

datatype stats =
    STATS_MISSING
  | STATS_STDOUT
  | STATS_STATUS
  | STATS_NOOUTPUT
  | STATS_EMPTYOUTPUT
  | STATS_ERROR
  | STATS_TOCACHE
  | STATS_ARGS
  | STATS_PREPROCESSING
  | STATS_UNSUPPORTED_OPTION

datatype tmp_file = Tmp_stdout | Tmp_stderr | Tmp_stderr2

datatype event =
    Stats_update stats
  | Tmp_unlink tmp_file
  | Copy_to_stderr string
  | Use_relative_paths_in_depfile
  | Result_put "string list"
  | Stats_update_size
  | Create_cachedir_tag
  | Update_manifest_file

datatype outcome = Failed | X_exit int | Returned

text \<open>
  What the run left behind and what the system calls return: the exit status, the
  \<open>stat\<close> of the captured stdout, the text the compiler wrote to stderr, the text of
  the preprocessor's stderr file (when the global \<open>cpp_stderr\<close> is set), whether
  each \<open>rename\<close>, \<open>open\<close> and \<open>stat\<close> on the way succeeds, and the globals that
  select the artifacts to store.
\<close>

record to_cache_world =
  status :: int
  x_stat_tmp_stdout :: "stat option"
  compiler :: guessed_compiler
  compiler_stderr :: string
  cpp_stderr :: "string option"
  x_rename_ok :: bool
  open_cpp_stderr_ok :: bool
  open_tmp_stderr2_ok :: bool
  open_result_ok :: bool
  open_tmp_stderr_ok :: bool
  depend_mode :: bool
  result_name_from_depfile_ok :: bool
  generating_dependencies :: bool
  output_dep :: string
  stat_output_obj :: "stat option"
  x_stat_tmp_stderr_ok :: bool
  generating_coverage :: bool
  generating_stackusage :: bool
  generating_diagnostics :: bool
  seen_split_dwarf :: bool
  stat_output_dwo_ok :: bool
  x_stat_cached_result_ok :: bool

text \<open>
  Merging the stderr of the preprocessor and of the compiler into \<open>tmp_stderr\<close>.
  \<open>None\<close> is a call of \<open>failed()\<close>; otherwise the result is the text that
  \<open>tmp_stderr\<close> holds afterwards, with the events on the way.
\<close>

definition merge_stderr :: "to_cache_world \<Rightarrow> (event list \<times> string) option" where
  "merge_stderr w =
     (case cpp_stderr w of
        None \<Rightarrow> Some ([], compiler_stderr w)
      | Some cpp_text \<Rightarrow>
          if \<not> x_rename_ok w then None
          else if \<not> open_cpp_stderr_ok w then None
          else if \<not> open_tmp_stderr2_ok w then None
          else if \<not> open_result_ok w then None
          else Some ([Tmp_unlink Tmp_stderr2], cpp_text @ compiler_stderr w))"

text \<open>The artifacts handed to \<open>result_put\<close>, by their suffix.\<close>

definition result_files :: "to_cache_world \<Rightarrow> string \<Rightarrow> string list" where
  "result_files w captured =
     (if captured \<noteq> [] then [''<stderr>''] else [])
     @ [''.o'']
     @ (if generating_dependencies w then [''.d''] else [])
     @ (if generating_coverage w then [''.gcno''] else [])
     @ (if generating_stackusage w then [''.su''] else [])
     @ (if generating_diagnostics w then [''.dia''] else [])
     @ (if seen_split_dwarf w \<and> stat_output_dwo_ok w then [''.dwo''] else [])"

text \<open>The part of \<open>to_cache\<close> after the test of the exit status: storing the result.\<close>

definition store_result :: "to_cache_world \<Rightarrow> string \<Rightarrow> event list \<times> outcome" where
  "store_result w captured =
     (if depend_mode w \<and> \<not> result_name_from_depfile_ok w then ([], Failed)
      else
        let ev_dep = (if generating_dependencies w \<and> output_dep w \<noteq> ''/dev/null''
                      then [Use_relative_paths_in_depfile] else [])
        in case stat_output_obj w of
             None \<Rightarrow> (ev_dep @ [Stats_update STATS_NOOUTPUT], Failed)
           | Some st \<Rightarrow>
               if st_size st = 0 then (ev_dep @ [Stats_update STATS_EMPTYOUTPUT], Failed)
               else if \<not> x_stat_tmp_stderr_ok w then (ev_dep @ [Stats_update STATS_ERROR], Failed)
               else
                 let ev_put = ev_dep @ [Result_put (result_files w captured)]
                 in if \<not> x_stat_cached_result_ok w
                    then (ev_put @ [Stats_update STATS_ERROR], Failed)
                    else (ev_put @ [Stats_update_size, Stats_update STATS_TOCACHE,
                                    Create_cachedir_tag]
                            @ (if open_tmp_stderr_ok w then [Copy_to_stderr captured] else [])
                            @ [Tmp_unlink Tmp_stderr, Update_manifest_file],
                          Returned))"

definition to_cache_after_execute :: "to_cache_world \<Rightarrow> event list \<times> outcome" where
  "to_cache_after_execute w =
     (case x_stat_tmp_stdout w of
        None \<Rightarrow>
          ([Stats_update STATS_MISSING, Tmp_unlink Tmp_stdout, Tmp_unlink Tmp_stderr], Failed)
      | Some st \<Rightarrow>
          if st_size st \<noteq> 0 \<and> compiler w \<noteq> GUESSED_PUMP
          then ([Stats_update STATS_STDOUT, Tmp_unlink Tmp_stdout, Tmp_unlink Tmp_stderr], Failed)
          else
            (case merge_stderr w of
               None \<Rightarrow> ([Tmp_unlink Tmp_stdout], Failed)
             | Some (ev_merge, captured) \<Rightarrow>
                 if status w \<noteq> 0 then
                   (if open_tmp_stderr_ok w
                    then ([Tmp_unlink Tmp_stdout] @ ev_merge
                            @ [Stats_update STATS_STATUS, Copy_to_stderr captured,
                               Tmp_unlink Tmp_stderr],
                          X_exit (status w))
                    else ([Tmp_unlink Tmp_stdout] @ ev_merge
                            @ [Stats_update STATS_STATUS, Tmp_unlink Tmp_stderr],
                          Failed))
                 else
                   (let (ev_store, out) = store_result w captured
                    in ([Tmp_unlink Tmp_stdout] @ ev_merge @ ev_store, out))))"

text \<open>An event that stores something in the cache.\<close>

fun stores :: "event \<Rightarrow> bool" where
  "stores (Result_put fs) = True"
| "stores Update_manifest_file = True"
| "stores e = False"

text \<open>
  The run reaches the test of the exit status: the captured stdout is still there and
  empty (or the compiler is distcc-pump), the two stderr files could be merged, and
  \<open>tmp_stderr\<close> can be opened. The value is the captured stderr text then.
\<close>

definition reaches_status_test :: "to_cache_world \<Rightarrow> string option" where
  "reaches_status_test w =
     (case x_stat_tmp_stdout w of
        None \<Rightarrow> None
      | Some st \<Rightarrow>
          if st_size st \<noteq> 0 \<and> compiler w \<noteq> GUESSED_PUMP then None
          else if \<not> open_tmp_stderr_ok w then None
          else map_option snd (merge_stderr w))"

section \<open>The -arch options in cc_process_args (ccache.cpp)\<close>

text \<open>
  The loop of \<open>cc_process_args\<close> over the expanded arguments tries its rules in order
  for every argument. The model has the rules up to and including the one for
  \<open>-arch\<close> as the code has them. The rules after it never touch \<open>arch_args\<close> and
  never change the argument vector; they are the parameter \<open>other_options\<close>, which
  gives the state after the argument at \<open>i\<close> and either the index of the last
  argument it consumed or \<open>None\<close> for \<open>result = false; goto out\<close>. The option tables
  of \<open>compopt.hpp\<close> and the reader of \<open>@file\<close> arguments are not among the sources
  and are parameters as well.
\<close>

definition MAX_ARCH_ARGS :: nat where
  "MAX_ARCH_ARGS = 10"

record 'r pa_state =
  arch_args :: "string list"
  pa_direct_mode :: bool
  run_second_cpp :: bool
  common_args :: "string list"
  stats_log :: "stats list"
  other_state :: 'r

record 'r pa_env =
  pa_compiler :: guessed_compiler
  args_init_from_gcc_atfile :: "string \<Rightarrow> string list option"
  compopt_too_hard :: "string \<Rightarrow> bool"
  compopt_too_hard_for_direct_mode :: "string \<Rightarrow> bool"
  other_options :: "'r pa_state \<Rightarrow> string list \<Rightarrow> nat \<Rightarrow> 'r pa_state \<times> nat option"

text \<open>
  The loop ends in one of four ways: it runs through all arguments (\<open>Loop_done\<close>), it
  jumps to \<open>out\<close> with \<open>result = false\<close> (\<open>Goto_out_false\<close>), it copies
  \<open>argv[argc]\<close>, which is \<open>NULL\<close>, with \<open>x_strdup\<close> (\<open>Strdup_of_NULL\<close>, undefined
  in C), or the model runs out of fuel, which an \<open>@file\<close> that names itself makes
  possible.
\<close>

datatype 'r pa_result =
    Out_of_fuel
  | Strdup_of_NULL
  | Goto_out_false "'r pa_state"
  | Loop_done "'r pa_state"

definition str_startswith :: "string \<Rightarrow> string \<Rightarrow> bool" where
  "str_startswith s prefix \<longleftrightarrow> take (length prefix) s = prefix"

text \<open>
  Modelled from the spec: \<open>args_insert\<close> of \<open>args.hpp\<close> (spec 4.4, rule 3: the
  contents of the file become arguments at position \<open>i\<close>). With \<open>replace\<close> the
  argument at \<open>index\<close> is replaced by the new ones, without it they go in before it.
\<close>

definition args_insert :: "string list \<Rightarrow> nat \<Rightarrow> string list \<Rightarrow> bool \<Rightarrow> string list" where
  "args_insert dest idx src replace =
     take idx dest @ src @ drop (if replace then idx + 1 else idx) dest"

definition stats_update :: "'r pa_state \<Rightarrow> stats \<Rightarrow> 'r pa_state" where
  "stats_update st x = st\<lparr>stats_log := stats_log st @ [x]\<rparr>"

text \<open>
  One round of the loop for the argument at \<open>i\<close>: either the loop ends with a
  result, or it goes on (\<open>continue\<close>) with an argument vector, the index of the next
  argument and a state. The rules follow, last first; each one hands an argument that
  it does not match to the rule after it in the code.
\<close>

datatype 'r pa_step = Ends "'r pa_result" | Continue "string list" nat "'r pa_state"

text \<open>The rules after the one for \<open>-arch\<close>; they leave \<open>arch_args\<close> as it is.\<close>

definition rule_other :: "'r pa_env \<Rightarrow> string list \<Rightarrow> nat \<Rightarrow> 'r pa_state \<Rightarrow> 'r pa_step" where
  "rule_other env argv i st =
     (case other_options env st argv i of
        (st2, None) \<Rightarrow> Ends (Goto_out_false (st2\<lparr>arch_args := arch_args st\<rparr>))
      | (st2, Some j) \<Rightarrow> Continue argv (j + 1) (st2\<lparr>arch_args := arch_args st\<rparr>))"

text \<open>\<open>// Handle -arch options.\<close>\<close>

definition rule_arch :: "'r pa_env \<Rightarrow> string list \<Rightarrow> nat \<Rightarrow> 'r pa_state \<Rightarrow> 'r pa_step" where
  "rule_arch env argv i st =
     (if argv ! i = ''-arch'' then
        (if length (arch_args st) = MAX_ARCH_ARGS - 1
         then Ends (Goto_out_false (stats_update st STATS_UNSUPPORTED_OPTION))
         else if i + 1 = length argv then Ends Strdup_of_NULL
         else
           (let st2 = st\<lparr>arch_args := arch_args st @ [argv ! (i + 1)]\<rparr>;
                st3 = (if length (arch_args st2) = 2
                       then st2\<lparr>run_second_cpp := True\<rparr> else st2)
            in Continue argv (i + 2) st3))
      else rule_other env argv i st)"

text \<open>
  \<open>// These are too hard in direct mode.\<close> (which does not end the round) and
  \<open>// -Xarch_* options are too hard.\<close>
\<close>

definition rule_xarch :: "'r pa_env \<Rightarrow> string list \<Rightarrow> nat \<Rightarrow> 'r pa_state \<Rightarrow> 'r pa_step" where
  "rule_xarch env argv i st =
     (let st1 = (if pa_direct_mode st \<and> compopt_too_hard_for_direct_mode env (argv ! i)
                 then st\<lparr>pa_direct_mode := False\<rparr> else st)
      in if str_startswith (argv ! i) ''-Xarch_''
         then Ends (Goto_out_false (stats_update st1 STATS_UNSUPPORTED_OPTION))
         else rule_arch env argv i st1)"

text \<open>\<open>// These are always too hard.\<close>\<close>

definition rule_too_hard :: "'r pa_env \<Rightarrow> string list \<Rightarrow> nat \<Rightarrow> 'r pa_state \<Rightarrow> 'r pa_step" where
  "rule_too_hard env argv i st =
     (if compopt_too_hard env (argv ! i) \<or> str_startswith (argv ! i) ''-fdump-''
      then Ends (Goto_out_false (stats_update st STATS_UNSUPPORTED_OPTION))
      else rule_xarch env argv i st)"

text \<open>
  \<open>// Handle cuda "-optf" and "--options-file" argument.\<close> The loop over the
  comma-separated list ends the string at the first comma and goes on from that
  terminator, where it finds no further comma: it reads the first file only.
\<close>

definition rule_optf :: "'r pa_env \<Rightarrow> string list \<Rightarrow> nat \<Rightarrow> 'r pa_state \<Rightarrow> 'r pa_step" where
  "rule_optf env argv i st =
     (if pa_compiler env = GUESSED_NVCC
         \<and> (argv ! i = ''-optf'' \<or> argv ! i = ''--options-file'') then
        (if i = length argv - 1 then Ends (Goto_out_false (stats_update st STATS_ARGS))
         else
           (let str_start = takeWhile (\<lambda>c. c \<noteq> CHR '','') (argv ! (i + 1))
            in case args_init_from_gcc_atfile env str_start of
                 None \<Rightarrow> Ends (Goto_out_false (stats_update st STATS_ARGS))
               | Some file_args \<Rightarrow>
                   Continue (args_insert (argv[i + 1 := str_start]) (i + 2) file_args False)
                     (i + 2) st))
      else rule_too_hard env argv i st)"

text \<open>\<open>// Handle "@file" argument.\<close>\<close>

definition rule_atfile :: "'r pa_env \<Rightarrow> string list \<Rightarrow> nat \<Rightarrow> 'r pa_state \<Rightarrow> 'r pa_step" where
  "rule_atfile env argv i st =
     (if str_startswith (argv ! i) ''@'' \<or> str_startswith (argv ! i) ''-@'' then
        (case args_init_from_gcc_atfile env
                (if hd (argv ! i) = CHR ''-'' then drop 2 (argv ! i) else drop 1 (argv ! i)) of
           None \<Rightarrow> Ends (Goto_out_false (stats_update st STATS_ARGS))
         | Some file_args \<Rightarrow> Continue (args_insert argv i file_args True) i st)
      else rule_optf env argv i st)"

text \<open>
  The top of the loop body: \<open>// The user knows best: just swallow the next arg.\<close> and
  \<open>// Special case for -E.\<close>
\<close>

definition cc_process_args_step ::
  "'r pa_env \<Rightarrow> string list \<Rightarrow> nat \<Rightarrow> 'r pa_state \<Rightarrow> 'r pa_step" where
  "cc_process_args_step env argv i st =
     (if argv ! i = ''--ccache-skip'' then
        (if i + 1 = length argv then Ends (Goto_out_false st)
         else Continue argv (i + 2) (st\<lparr>common_args := common_args st @ [argv ! (i + 1)]\<rparr>))
      else if argv ! i = ''-E'' then Ends (Goto_out_false (stats_update st STATS_PREPROCESSING))
      else rule_atfile env argv i st)"

text \<open>\<open>for (int i = 1; i < argc; i++)\<close>, with fuel.\<close>

fun cc_process_args_loop ::
  "nat \<Rightarrow> 'r pa_env \<Rightarrow> string list \<Rightarrow> nat \<Rightarrow> 'r pa_state \<Rightarrow> 'r pa_result" where
  "cc_process_args_loop 0 env argv i st = Out_of_fuel"
| "cc_process_args_loop (Suc fuel) env argv i st =
     (if \<not> i < length argv then Loop_done st
      else case cc_process_args_step env argv i st of
             Ends r \<Rightarrow> r
           | Continue argv' i' st' \<Rightarrow> cc_process_args_loop fuel env argv' i' st')"

text \<open>
  \<open>cc_process_args\<close> up to the end of the loop: \<open>common_args\<close> starts with
  \<open>argv[0]\<close> and the loop starts at index 1. \<open>arch_args\<close> is empty at the start of
  an invocation.
\<close>

definition cc_process_args_arch ::
  "nat \<Rightarrow> 'r pa_env \<Rightarrow> bool \<Rightarrow> 'r \<Rightarrow> string list \<Rightarrow> 'r pa_result" where
  "cc_process_args_arch fuel env direct r argv =
     cc_process_args_loop fuel env argv 1
       \<lparr>arch_args = [], pa_direct_mode = direct, run_second_cpp = False,
        common_args = [hd argv], stats_log = [], other_state = r\<rparr>"

text \<open>The arch list of a result, where there is one.\<close>

fun result_arch_args :: "'r pa_result \<Rightarrow> string list" where
  "result_arch_args (Goto_out_false st) = arch_args st"
| "result_arch_args (Loop_done st) = arch_args st"
| "result_arch_args r = []"

text \<open>The arch list that a round of the loop leaves behind has at most nine entries.\<close>

definition bounded_step :: "'r pa_step \<Rightarrow> bool" where
  "bounded_step s \<longleftrightarrow>
     (case s of
        Ends r \<Rightarrow> length (result_arch_args r) \<le> MAX_ARCH_ARGS - 1
      | Continue argv' i' st' \<Rightarrow> length (arch_args st') \<le> MAX_ARCH_ARGS - 1)"

section \<open>What the arguments contribute to the result name (ccache.cpp)\<close>

text \<open>
  \<open>guess_compiler\<close> looks at the base name of the compiler. \<open>nm\<close> is the value of
  \<open>x_basename(path)\<close> (\<open>util.hpp\<close> is not among the sources). \<open>strstr\<close> of the C
  library finds a substring, \<open>str_eq\<close> compares whole strings.
\<close>

definition strstr :: "string \<Rightarrow> string \<Rightarrow> bool" where
  "strstr haystack needle \<longleftrightarrow>
     list_ex (\<lambda>k. take (length needle) (drop k haystack) = needle) [0..<Suc (length haystack)]"

definition guess_compiler :: "string \<Rightarrow> guessed_compiler" where
  "guess_compiler nm =
     (if strstr nm ''clang'' then GUESSED_CLANG
      else if strstr nm ''gcc'' \<or> strstr nm ''g++'' then GUESSED_GCC
      else if strstr nm ''nvcc'' then GUESSED_NVCC
      else if nm = ''pump'' \<or> nm = ''distcc-pump'' then GUESSED_PUMP
      else GUESSED_UNKNOWN)"

text \<open>
  What \<open>calculate_result_name\<close> reads besides the arguments and the hash: its
  parameter \<open>direct_mode\<close>, the globals that \<open>cc_process_args\<close> has set, the
  configuration (\<open>compiler_check\<close>), the option tables of \<open>compopt.hpp\<close> (not among the
  sources; \<open>compopt_short_affects_cpp\<close> is \<open>compopt_short(compopt_affects_cpp, _)\<close>),
  the file system, and what \<open>hash_file\<close> feeds to the hash for a path (nothing if the
  file cannot be read; its return value is not looked at here). What
  \<open>hash_nvcc_host_compiler\<close> feeds depends on the platform and on the executables in
  \<open>PATH\<close>; it is given for the directory or compiler of \<open>-ccbin\<close>, and for \<open>NULL\<close>.
  \<open>RESULT_VERSION\<close> is a constant of \<open>result.hpp\<close>.
\<close>

record crn_env =
  crn_compiler :: guessed_compiler
  crn_direct_mode :: bool
  crn_output_is_precompiled_header :: bool
  crn_using_precompiled_header :: bool
  crn_generating_dependencies :: bool
  crn_output_dep :: string
  compopt_affects_cpp :: "string \<Rightarrow> bool"
  compopt_takes_arg :: "string \<Rightarrow> bool"
  compopt_short_affects_cpp :: "string \<Rightarrow> bool"
  crn_x_stat :: "string \<Rightarrow> stat option"
  compiler_check :: string
  crn_hash_file :: "string \<Rightarrow> hash"
  hash_nvcc_host_compiler :: "(stat \<times> string) option \<Rightarrow> hash"
  crn_RESULT_VERSION :: int
  crn_actual_language :: string
  crn_profile_generate :: bool
  crn_profile_use :: bool
  crn_profile_dir :: "string option"
  crn_get_cwd :: string
  crn_remove_extension :: "string \<Rightarrow> string"
  crn_output_obj :: string
  crn_arch_args :: "string list"

text \<open>
  \<open>hash_compiler\<close> as \<open>calculate_result_name\<close> calls it, with \<open>allow_command\<close> false:
  the branch that runs a command is not reached then. \<open>Hash_int\<close> records the value
  of the expression handed to \<open>hash_int\<close>.
\<close>

definition hash_compiler :: "crn_env \<Rightarrow> hash \<Rightarrow> stat \<Rightarrow> string \<Rightarrow> hash" where
  "hash_compiler env h st p =
     (if compiler_check env = ''none'' then h
      else if compiler_check env = ''mtime''
      then hash_int (hash_int (hash_delimiter h ''cc_mtime'') (sint (st_size st)))
             (sint (st_mtime st))
      else if str_startswith (compiler_check env) ''string:''
      then hash_string (hash_delimiter h ''cc_hash'') (drop 7 (compiler_check env))
      else hash_delimiter h ''cc_content'' @ crn_hash_file env p)"

definition is_clang :: "crn_env \<Rightarrow> bool" where
  "is_clang env \<longleftrightarrow> crn_compiler env = GUESSED_CLANG \<or> crn_compiler env = GUESSED_UNKNOWN"

text \<open>
  One round of the loop over the arguments, for the argument \<open>a\<close> followed by the
  arguments \<open>rest\<close>: the number of arguments the round consumes, the hash and
  \<open>found_ccbin\<close> afterwards. The rules follow, last first; each one hands an argument
  that it does not match to the rule after it in the code. \<open>x_stat\<close> is called only
  if the tests before it in the condition hold, and gives the \<open>st\<close> that is hashed.
\<close>

type_synonym crn_step = "nat \<times> hash \<times> bool"

text \<open>\<open>// All other arguments are included in the hash.\<close>\<close>

definition hash_arg_default :: "crn_env \<Rightarrow> string \<Rightarrow> string list \<Rightarrow> hash \<Rightarrow> bool \<Rightarrow> crn_step" where
  "hash_arg_default env a rest h fc =
     (let h1 = hash_string (hash_delimiter h ''arg'') a
      in if rest \<noteq> [] \<and> compopt_takes_arg env a
         then (2, hash_string (hash_delimiter h1 ''arg'') (hd rest), fc)
         else (1, h1, fc))"

definition hash_arg_ccbin :: "crn_env \<Rightarrow> string \<Rightarrow> string list \<Rightarrow> hash \<Rightarrow> bool \<Rightarrow> crn_step" where
  "hash_arg_ccbin env a rest h fc =
     (case (if (a = ''-ccbin'' \<or> a = ''--compiler-bindir'') \<and> rest \<noteq> []
            then crn_x_stat env (hd rest) else None) of
        Some st \<Rightarrow>
          (2, hash_delimiter h ''ccbin'' @ hash_nvcc_host_compiler env (Some (st, hd rest)),
           True)
      | None \<Rightarrow> hash_arg_default env a rest h fc)"

definition hash_arg_xclang :: "crn_env \<Rightarrow> string \<Rightarrow> string list \<Rightarrow> hash \<Rightarrow> bool \<Rightarrow> crn_step" where
  "hash_arg_xclang env a rest h fc =
     (case (if a = ''-Xclang'' \<and> 3 \<le> length rest \<and> rest ! 0 = ''-load''
               \<and> rest ! 1 = ''-Xclang''
            then crn_x_stat env (rest ! 2) else None) of
        Some st \<Rightarrow> (4, hash_compiler env (hash_delimiter h ''plugin'') st (rest ! 2), fc)
      | None \<Rightarrow> hash_arg_ccbin env a rest h fc)"

definition hash_arg_fplugin :: "crn_env \<Rightarrow> string \<Rightarrow> string list \<Rightarrow> hash \<Rightarrow> bool \<Rightarrow> crn_step" where
  "hash_arg_fplugin env a rest h fc =
     (case (if str_startswith a ''-fplugin='' then crn_x_stat env (drop 9 a) else None) of
        Some st \<Rightarrow> (1, hash_compiler env (hash_delimiter h ''plugin'') st (drop 9 a), fc)
      | None \<Rightarrow> hash_arg_xclang env a rest h fc)"

definition specs_path :: "string \<Rightarrow> string option" where
  "specs_path a =
     (if str_startswith a ''-specs='' then Some (drop 7 a)
      else if str_startswith a ''--specs='' then Some (drop 8 a)
      else None)"

definition hash_arg_specs :: "crn_env \<Rightarrow> string \<Rightarrow> string list \<Rightarrow> hash \<Rightarrow> bool \<Rightarrow> crn_step" where
  "hash_arg_specs env a rest h fc =
     (case specs_path a of
        None \<Rightarrow> hash_arg_fplugin env a rest h fc
      | Some p \<Rightarrow>
          (case crn_x_stat env p of
             None \<Rightarrow> hash_arg_fplugin env a rest h fc
           | Some st \<Rightarrow> (1, hash_compiler env (hash_delimiter h ''specs'') st p, fc)))"

text \<open>
  \<open>// If we're generating dependencies, we make sure to skip the filename of the
  dependency file, since it doesn't impact the output.\<close>
\<close>

definition hash_arg_dep :: "crn_env \<Rightarrow> string \<Rightarrow> string list \<Rightarrow> hash \<Rightarrow> bool \<Rightarrow> crn_step" where
  "hash_arg_dep env a rest h fc =
     (if crn_generating_dependencies env then
        (if str_startswith a ''-Wp,'' then
           (if str_startswith a ''-Wp,-MD,'' \<and> CHR '','' \<notin> set (drop 8 a)
            then (1, hash_string_buffer h a 8, fc)
            else if str_startswith a ''-Wp,-MMD,'' \<and> CHR '','' \<notin> set (drop 9 a)
            then (1, hash_string_buffer h a 9, fc)
            else hash_arg_specs env a rest h fc)
         else if str_startswith a ''-MF'' then
           (if crn_output_dep env \<noteq> ''/dev/null'' \<and> length a = 3 then 2 else 1,
            hash_string_buffer (hash_delimiter h ''arg'') a 3, fc)
         else hash_arg_specs env a rest h fc)
      else hash_arg_specs env a rest h fc)"

text \<open>
  \<open>// When using the preprocessor, some arguments don't contribute to the hash.\<close>
\<close>

definition hash_arg_cpp :: "crn_env \<Rightarrow> string \<Rightarrow> string list \<Rightarrow> hash \<Rightarrow> bool \<Rightarrow> crn_step" where
  "hash_arg_cpp env a rest h fc =
     (if \<not> crn_direct_mode env \<and> \<not> crn_output_is_precompiled_header env
         \<and> \<not> crn_using_precompiled_header env
      then (if compopt_affects_cpp env a
            then (if compopt_takes_arg env a then 2 else 1, h, fc)
            else if compopt_short_affects_cpp env a then (1, h, fc)
            else hash_arg_dep env a rest h fc)
      else hash_arg_dep env a rest h fc)"

text \<open>
  \<open>// Skip using the value of the option from hashing but still hash the existence
  of the option.\<close>
\<close>

definition hash_arg_prefix_map :: "crn_env \<Rightarrow> string \<Rightarrow> string list \<Rightarrow> hash \<Rightarrow> bool \<Rightarrow> crn_step" where
  "hash_arg_prefix_map env a rest h fc =
     (if str_startswith a ''-fdebug-prefix-map=''
      then (1, hash_string (hash_delimiter h ''arg'') ''-fdebug-prefix-map='', fc)
      else if str_startswith a ''-ffile-prefix-map=''
      then (1, hash_string (hash_delimiter h ''arg'') ''-ffile-prefix-map='', fc)
      else if str_startswith a ''-fmacro-prefix-map=''
      then (1, hash_string (hash_delimiter h ''arg'') ''-fmacro-prefix-map='', fc)
      else hash_arg_cpp env a rest h fc)"

text \<open>
  The top of the loop body: \<open>// -L doesn't affect compilation (except for clang).\<close>
  and \<open>// -Wl,... doesn't affect compilation (except for clang).\<close>
\<close>

definition hash_arg :: "crn_env \<Rightarrow> string \<Rightarrow> string list \<Rightarrow> hash \<Rightarrow> bool \<Rightarrow> crn_step" where
  "hash_arg env a rest h fc =
     (if rest \<noteq> [] \<and> a = ''-L'' \<and> \<not> is_clang env then (2, h, fc)
      else if str_startswith a ''-L'' \<and> \<not> is_clang env then (1, h, fc)
      else if str_startswith a ''-Wl,'' \<and> \<not> is_clang env then (1, h, fc)
      else hash_arg_prefix_map env a rest h fc)"

text \<open>
  \<open>for (int i = 1; i < args->argc; i++)\<close>: the list holds the arguments from index
  \<open>i\<close> on. A round that consumes \<open>n\<close> arguments drops \<open>n - 1\<close> of those that follow.
\<close>

function hash_args :: "crn_env \<Rightarrow> string list \<Rightarrow> hash \<Rightarrow> bool \<Rightarrow> hash \<times> bool" where
  "hash_args env [] h fc = (h, fc)"
| "hash_args env (a # rest) h fc =
     (case hash_arg env a rest h fc of
        (n, h1, fc1) \<Rightarrow> hash_args env (drop (n - 1) rest) h1 fc1)"
  by pat_completeness auto
termination
  by (relation "measure (\<lambda>(env, args, h, fc). length args)") auto







section \<open>Other decisions on the guessed compiler (ccache.cpp)\<close>

text \<open>
  The start of \<open>from_cache\<close>: whether the cached result is looked at at all.
\<close>

datatype fromcache_call_mode = FROMCACHE_DIRECT_MODE | FROMCACHE_CPP_MODE

definition from_cache_considers ::
  "bool \<Rightarrow> guessed_compiler \<Rightarrow> bool \<Rightarrow> fromcache_call_mode \<Rightarrow> bool" where
  "from_cache_considers recache gc output_is_pch mode =
     (if recache then False
      else if (gc = GUESSED_CLANG \<or> gc = GUESSED_UNKNOWN) \<and> output_is_pch
              \<and> mode = FROMCACHE_CPP_MODE
      then False
      else True)"

text \<open>
  The end of \<open>cc_process_args\<close>: the option added to \<open>common_args\<close> to force colored
  diagnostics. \<open>gcc_colors\<close> is the environment variable \<open>GCC_COLORS\<close>.
\<close>

definition automatic_color_args ::
  "bool \<Rightarrow> bool \<Rightarrow> guessed_compiler \<Rightarrow> string \<Rightarrow> string option \<Rightarrow> string list" where
  "automatic_color_args found_color_diagnostics color_output_possible gc actual_language
     gcc_colors =
     (if \<not> found_color_diagnostics \<and> color_output_possible then
        (if gc = GUESSED_CLANG then
           (if actual_language \<noteq> ''assembler'' then [''-fcolor-diagnostics''] else [])
         else if gc = GUESSED_GCC then
           (case gcc_colors of
              None \<Rightarrow> []
            | Some v \<Rightarrow> if v \<noteq> [] then [''-fdiagnostics-color''] else [])
         else [])
      else [])"

section \<open>Conditions used in the statements about the result name\<close>

text \<open>
  The rule for the options of the preprocessor leaves the argument \<open>a\<close> to the rules
  after it: it is switched off (direct mode or a precompiled header), or the tables do
  not list \<open>a\<close>.
\<close>

definition skips_cpp_rule :: "crn_env \<Rightarrow> string \<Rightarrow> bool" where
  "skips_cpp_rule env a \<longleftrightarrow>
     crn_direct_mode env \<or> crn_output_is_precompiled_header env
     \<or> crn_using_precompiled_header env
     \<or> (\<not> compopt_affects_cpp env a \<and> \<not> compopt_short_affects_cpp env a)"

text \<open>
  A precompiled header is written and the mtime of the file \<open>p\<close> is not the one
  that the FileInfo \<open>fi\<close> recorded.
\<close>

definition pch_mtime_mismatch :: "verify_env \<Rightarrow> FileInfo \<Rightarrow> string \<Rightarrow> bool" where
  "pch_mtime_mismatch env fi p \<longleftrightarrow>
     output_is_precompiled_header env \<and>
     (case x_stat env p of None \<Rightarrow> False | Some st \<Rightarrow> mtime fi \<noteq> st_mtime st)"

section \<open>Concrete inputs for manifest_put\<close>

text \<open>A file system without any file, and two with a single header \<open>a.h\<close>.\<close>

definition no_files :: "string \<Rightarrow> stat option" where
  "no_files p = None"

definition stat_a_10 :: stat where
  "stat_a_10 = \<lparr>st_mode = S_IFREG, st_size = 42, st_mtime = 10, st_ctime = 10\<rparr>"

definition fs_a_10 :: "string \<Rightarrow> stat option" where
  "fs_a_10 p = (if p = ''a.h'' then Some stat_a_10 else None)"

definition stat_a_5_20 :: stat where
  "stat_a_5_20 = \<lparr>st_mode = S_IFREG, st_size = 42, st_mtime = 5, st_ctime = 20\<rparr>"

definition fs_a_5_20 :: "string \<Rightarrow> stat option" where
  "fs_a_5_20 p = (if p = ''a.h'' then Some stat_a_5_20 else None)"

definition digest_0 :: digest where
  "digest_0 = replicate 20 0"

definition digest_1 :: digest where
  "digest_1 = replicate 20 1"

definition inc_a :: "(string \<times> digest) list" where
  "inc_a = [(''a.h'', digest_1)]"

text \<open>A manifest with exactly 100 result entries, and one with exactly 10000 FileInfo
  entries (all of them for the file \<open>b.h\<close>, with different sizes).\<close>

definition result_0 :: result where
  "result_0 = \<lparr>file_info_indexes = [], name = digest_0\<rparr>"

definition mf_100_results :: manifest where
  "mf_100_results = \<lparr>files = [], file_infos = [], results = replicate 100 result_0\<rparr>"

definition file_info_b :: "nat \<Rightarrow> FileInfo" where
  "file_info_b k = \<lparr>index = 0, digest = digest_0, fsize = of_nat k, mtime = - 1, ctime = - 1\<rparr>"

definition mf_10000_file_infos :: manifest where
  "mf_10000_file_infos =
     \<lparr>files = [\<lparr>path_len = 3, path = ''b.h''\<rparr>],
      file_infos = map file_info_b [0..<10000],
      results = [result_0]\<rparr>"

text \<open>
  A stream layer without compression (type 0 passes the bytes through, every other type
  is unknown), with the sum of the bytes standing in for XXH64; and the manifest that
  holds one result for the header \<open>a.h\<close>.
\<close>

definition sum_checksum :: "byte list \<Rightarrow> 64 word" where
  "sum_checksum bs = sum_list (map ucast bs)"

definition plain_stream :: "byte \<Rightarrow> byte list \<Rightarrow> byte list option" where
  "plain_stream t bs = (if t = 0 then Some bs else None)"

definition env_plain :: stream_env where
  "env_plain = \<lparr>compression_type_from_config = 0, compression_level_from_config = 0,
     compressor = plain_stream, decompressor = plain_stream, XXH64 = sum_checksum\<rparr>"

definition mf_a :: manifest where
  "mf_a = \<lparr>files = [\<lparr>path_len = 3, path = ''a.h''\<rparr>],
      file_infos = [\<lparr>index = 0, digest = digest_1, fsize = 42, mtime = 10, ctime = 10\<rparr>],
      results = [\<lparr>file_info_indexes = [0], name = digest_0\<rparr>]\<rparr>"

definition bytes_a :: "byte list" where
  "bytes_a = common_header_bytes 0 0 (content_size_of mf_a) @ manifest_body mf_a
     @ BYTES_FROM_UINT64 (sum_checksum (manifest_body mf_a))"

section \<open>Concrete inputs for manifest_get\<close>

text \<open>
  The header \<open>a.h\<close> as the manifest \<open>mf_a\<close> recorded it (hashing it gives
  \<open>digest_1\<close>), the same header when the hasher reports \<open>__TIME__\<close> in it, the same
  header when the hasher reports \<open>__DATE__\<close> in it and nothing else, and the default
  configuration.
\<close>

definition hash_plain :: "Config \<Rightarrow> string \<Rightarrow> hash_flag set \<times> digest" where
  "hash_plain config p = ({}, digest_1)"

definition hash_with_time :: "Config \<Rightarrow> string \<Rightarrow> hash_flag set \<times> digest" where
  "hash_with_time config p = ({HASH_SOURCE_CODE_FOUND_TIME}, digest_1)"

definition hash_with_date :: "Config \<Rightarrow> string \<Rightarrow> hash_flag set \<times> digest" where
  "hash_with_date config p = ({HASH_SOURCE_CODE_FOUND_DATE}, digest_1)"

definition env_a :: verify_env where
  "env_a = \<lparr>x_stat = fs_a_10, hash_source_code_file = hash_plain,
     the_guessed_compiler = GUESSED_GCC, output_is_precompiled_header = False\<rparr>"

definition env_a_time :: verify_env where
  "env_a_time = \<lparr>x_stat = fs_a_10, hash_source_code_file = hash_with_time,
     the_guessed_compiler = GUESSED_GCC, output_is_precompiled_header = False\<rparr>"

definition env_a_date :: verify_env where
  "env_a_date = \<lparr>x_stat = fs_a_10, hash_source_code_file = hash_with_date,
     the_guessed_compiler = GUESSED_GCC, output_is_precompiled_header = False\<rparr>"

definition config_default :: Config where
  "config_default = \<lparr>sloppiness = {}, direct_mode = True, pch_external_checksum = False\<rparr>"

definition no_caches :: caches where
  "no_caches = \<lparr>stated_files = Map.empty, hashed_files = Map.empty\<rparr>"

definition result_a :: result where
  "result_a = \<lparr>file_info_indexes = [0], name = digest_0\<rparr>"

definition file_info_a :: FileInfo where
  "file_info_a = \<lparr>index = 0, digest = digest_1, fsize = 42, mtime = 10, ctime = 10\<rparr>"

section \<open>Concrete inputs for remember_include_file\<close>









section \<open>Concrete runs of the compiler\<close>

text \<open>
  gcc fails with status 1 and an error message on stderr; in the second run it has
  printed a line to stdout as well.
\<close>

definition stat_empty :: stat where
  "stat_empty = \<lparr>st_mode = S_IFREG, st_size = 0, st_mtime = 10, st_ctime = 10\<rparr>"

definition world_gcc_fails :: to_cache_world where
  "world_gcc_fails =
     \<lparr>status = 1, x_stat_tmp_stdout = Some stat_empty, compiler = GUESSED_GCC,
      compiler_stderr = ''a.c:1: error'', cpp_stderr = None, x_rename_ok = True,
      open_cpp_stderr_ok = True, open_tmp_stderr2_ok = True, open_result_ok = True,
      open_tmp_stderr_ok = True, depend_mode = False, result_name_from_depfile_ok = True,
      generating_dependencies = False, output_dep = [], stat_output_obj = None,
      x_stat_tmp_stderr_ok = True, generating_coverage = False, generating_stackusage = False,
      generating_diagnostics = False, seen_split_dwarf = False, stat_output_dwo_ok = False,
      x_stat_cached_result_ok = True\<rparr>"

definition world_gcc_fails_with_stdout :: to_cache_world where
  "world_gcc_fails_with_stdout = world_gcc_fails\<lparr>x_stat_tmp_stdout := Some stat_a_10\<rparr>"

section \<open>Concrete command lines with -arch options\<close>

text \<open>
  No option is too hard, there are no \<open>@file\<close>s, and every other argument is passed
  on to \<open>common_args\<close>. The command lines give \<open>-arch\<close> nine and ten times.
\<close>

definition no_atfile :: "string \<Rightarrow> string list option" where
  "no_atfile p = None"

definition nothing_too_hard :: "string \<Rightarrow> bool" where
  "nothing_too_hard s = False"

definition pass_on :: "unit pa_state \<Rightarrow> string list \<Rightarrow> nat \<Rightarrow> unit pa_state \<times> nat option" where
  "pass_on st argv i = (st\<lparr>common_args := common_args st @ [argv ! i]\<rparr>, Some i)"

definition pa_env_gcc :: "unit pa_env" where
  "pa_env_gcc = \<lparr>pa_compiler = GUESSED_GCC, args_init_from_gcc_atfile = no_atfile,
     compopt_too_hard = nothing_too_hard, compopt_too_hard_for_direct_mode = nothing_too_hard,
     other_options = pass_on\<rparr>"

definition arch_pair :: "string \<Rightarrow> string list" where
  "arch_pair a = [''-arch'', a]"

definition nine_archs :: "string list" where
  "nine_archs = [''a1'', ''a2'', ''a3'', ''a4'', ''a5'', ''a6'', ''a7'', ''a8'', ''a9'']"

definition argv_9_archs :: "string list" where
  "argv_9_archs = ''gcc'' # concat (map arch_pair nine_archs) @ [''-c'', ''a.c'']"

definition argv_10_archs :: "string list" where
  "argv_10_archs =
     ''gcc'' # concat (map arch_pair (nine_archs @ [''a10''])) @ [''-c'', ''a.c'']"

section \<open>Concrete inputs for the result name\<close>

text \<open>
  Small option tables, and a run of gcc in preprocessor mode that generates
  dependencies: to \<open>a.d\<close>, and to \<open>/dev/null\<close>.
\<close>

definition table_affects_cpp :: "string \<Rightarrow> bool" where
  "table_affects_cpp a \<longleftrightarrow> a \<in> set [''-I'', ''-D'', ''-include'']"

definition table_takes_arg :: "string \<Rightarrow> bool" where
  "table_takes_arg a \<longleftrightarrow> a \<in> set [''-I'', ''-D'', ''-include'', ''-MF'', ''-L'']"

definition table_short_affects_cpp :: "string \<Rightarrow> bool" where
  "table_short_affects_cpp a \<longleftrightarrow> take 2 a \<in> set [''-I'', ''-D'']"

definition env_gcc :: crn_env where
  "env_gcc = \<lparr>crn_compiler = GUESSED_GCC, crn_direct_mode = False,
     crn_output_is_precompiled_header = False, crn_using_precompiled_header = False,
     crn_generating_dependencies = True, crn_output_dep = ''a.d'',
     compopt_affects_cpp = table_affects_cpp, compopt_takes_arg = table_takes_arg,
     compopt_short_affects_cpp = table_short_affects_cpp,
     crn_x_stat = (\<lambda>p. None), compiler_check = ''mtime'', crn_hash_file = (\<lambda>p. []),
     hash_nvcc_host_compiler = (\<lambda>ccbin. []), crn_RESULT_VERSION = 1,
     crn_actual_language = ''c'', crn_profile_generate = False, crn_profile_use = False,
     crn_profile_dir = None, crn_get_cwd = ''/home/u/proj'',
     crn_remove_extension = (\<lambda>p. takeWhile (\<lambda>c. c \<noteq> CHR ''.'') p),
     crn_output_obj = ''a.o'', crn_arch_args = []\<rparr>"


definition env_unknown :: crn_env where
  "env_unknown = env_gcc\<lparr>crn_compiler := GUESSED_UNKNOWN\<rparr>"

text \<open>
  The header \<open>a.h\<close> of \<open>mf_a\<close>, touched since (mtime 11, same size), while a
  compiler called \<open>cc\<close> writes a precompiled header.
\<close>

definition stat_a_11 :: stat where
  "stat_a_11 = stat_a_10\<lparr>st_mtime := 11\<rparr>"

definition fs_a_11 :: "string \<Rightarrow> stat option" where
  "fs_a_11 p = (if p = ''a.h'' then Some stat_a_11 else None)"

definition env_pch_unknown :: verify_env where
  "env_pch_unknown = \<lparr>x_stat = fs_a_11, hash_source_code_file = hash_plain,
     the_guessed_compiler = guess_compiler ''cc'', output_is_precompiled_header = True\<rparr>"

section \<open>Properties of manifest_put\<close>

lemma index_map_SomeD:
  assumes "map_of (zip xs (map of_nat [0..<length xs])) x = Some (i :: 32 word)"
    and "length xs < 2 ^ 32"
  shows "unat i < length xs \<and> xs ! unat i = x"
proof -
  from assms(1) have "(x, i) \<in> set (zip xs (map of_nat [0..<length xs]))"
    by (rule map_of_SomeD)
  then obtain k where k: "k < length xs" "xs ! k = x" "i = of_nat k"
    by (auto simp: in_set_zip)
  from k(1) assms(2) have "unat (of_nat k :: 32 word) = k"
    by (simp add: unat_of_nat)
  with k show ?thesis by simp
qed

lemma get_include_file_index_tables:
  "get_include_file_index mf p m = (i, mf1) \<Longrightarrow>
     file_infos mf1 = file_infos mf \<and> results mf1 = results mf"
  by (auto simp: get_include_file_index_def split: option.splits)

lemma get_file_info_index_grow:
  assumes "get_file_info_index stat_fn toc mf p d mfs mfi = (i, mf1)"
  shows "results mf1 = results mf"
    and "\<exists>zs. file_infos mf1 = file_infos mf @ zs \<and> length zs \<le> 1"
  using assms
  by (auto simp: get_file_info_index_def Let_def split: prod.splits option.splits
      dest: get_include_file_index_tables)

lemma loop_grow:
  "add_file_info_indexes_loop stat_fn toc mfs mfi mf items = (idxs, mf2) \<Longrightarrow>
     results mf2 = results mf \<and> length idxs = length items \<and>
     (\<exists>zs. file_infos mf2 = file_infos mf @ zs \<and> length zs \<le> length items)"
proof (induction items arbitrary: mf idxs mf2)
  case Nil
  then show ?case by simp
next
  case (Cons a items)
  obtain p d where a: "a = (p, d)" by (cases a)
  obtain i mf1 where g: "get_file_info_index stat_fn toc mf p d mfs mfi = (i, mf1)"
    by (cases "get_file_info_index stat_fn toc mf p d mfs mfi")
  obtain is' mf2' where l: "add_file_info_indexes_loop stat_fn toc mfs mfi mf1 items = (is', mf2')"
    by (cases "add_file_info_indexes_loop stat_fn toc mfs mfi mf1 items")
  from Cons.prems a g l have eq: "idxs = i # is'" "mf2 = mf2'" by auto
  from Cons.IH[OF l] obtain zs where zs: "results mf2' = results mf1" "length is' = length items"
    "file_infos mf2' = file_infos mf1 @ zs" "length zs \<le> length items" by auto
  from get_file_info_index_grow[OF g] obtain ys where ys: "results mf1 = results mf"
    "file_infos mf1 = file_infos mf @ ys" "length ys \<le> 1" by auto
  show ?case using eq zs ys by auto
qed

lemma add_result_entry_sizes:
  "n_results (add_result_entry stat_fn toc mf rd inc) = n_results mf + 1"
  "n_file_infos (add_result_entry stat_fn toc mf rd inc) \<le> n_file_infos mf + length inc"
proof -
  obtain idxs mf1 where a: "add_file_info_indexes stat_fn toc mf inc = (idxs, mf1)"
    by (cases "add_file_info_indexes stat_fn toc mf inc")
  have "results mf1 = results mf \<and>
     (\<exists>zs. file_infos mf1 = file_infos mf @ zs \<and> length zs \<le> length inc)"
  proof (cases "length inc = 0")
    case True
    with a show ?thesis by (simp add: add_file_info_indexes_def)
  next
    case False
    with a have "add_file_info_indexes_loop stat_fn toc (create_file_index_map (files mf))
             (create_file_info_index_map (file_infos mf)) mf inc = (idxs, mf1)"
      by (simp add: add_file_info_indexes_def)
    from loop_grow[OF this] show ?thesis by blast
  qed
  then show "n_results (add_result_entry stat_fn toc mf rd inc) = n_results mf + 1"
    "n_file_infos (add_result_entry stat_fn toc mf rd inc) \<le> n_file_infos mf + length inc"
    using a by (auto simp: add_result_entry_def n_results_def n_file_infos_def)
qed

text \<open>
  C2, as amended. \<open>manifest_put\<close> compares the counts of the manifest it has read with
  the two limits and only then appends, so the manifest it writes has at most
  \<open>MAX_MANIFEST_ENTRIES + 1 = 101\<close> result entries, and at most
  \<open>MAX_MANIFEST_FILE_INFO_ENTRIES = 10000\<close> FileInfo entries plus one for every
  include file of the set being added.
\<close>

theorem manifest_put_caps:
  "n_results (manifest_put_mf stat_fn toc prior rn inc) \<le> MAX_MANIFEST_ENTRIES + 1 \<and>
   n_file_infos (manifest_put_mf stat_fn toc prior rn inc)
     \<le> MAX_MANIFEST_FILE_INFO_ENTRIES + length inc"
proof -
  define mf where "mf = (case prior of Some m \<Rightarrow> m | None \<Rightarrow> create_empty_manifest)"
  define mf' where "mf' = (if n_results mf > MAX_MANIFEST_ENTRIES then create_empty_manifest
                 else if n_file_infos mf > MAX_MANIFEST_FILE_INFO_ENTRIES
                 then create_empty_manifest
                 else mf)"
  have put: "manifest_put_mf stat_fn toc prior rn inc = add_result_entry stat_fn toc mf' rn inc"
    by (simp add: manifest_put_mf_def mf_def mf'_def Let_def)
  have b: "n_results mf' \<le> MAX_MANIFEST_ENTRIES"
    "n_file_infos mf' \<le> MAX_MANIFEST_FILE_INFO_ENTRIES"
    by (auto simp: mf'_def create_empty_manifest_def n_results_def n_file_infos_def)
  show ?thesis
    using b add_result_entry_sizes[of stat_fn toc mf' rn inc] unfolding put by linarith
qed

text \<open>
  C2 as stated fails: a manifest with exactly 100 result entries is kept and grows to
  101, and one with exactly 10000 FileInfo entries is kept and grows to 10001 when a
  header that it does not know yet is added.
\<close>

theorem manifest_put_caps_counterexample:
  "n_results (manifest_put_mf no_files 0 (Some mf_100_results) digest_1 []) = 101 \<and>
   \<not> n_results (manifest_put_mf no_files 0 (Some mf_100_results) digest_1 [])
       \<le> MAX_MANIFEST_ENTRIES \<and>
   n_file_infos (manifest_put_mf no_files 0 (Some mf_10000_file_infos) digest_1 inc_a) = 10001 \<and>
   \<not> n_file_infos (manifest_put_mf no_files 0 (Some mf_10000_file_infos) digest_1 inc_a)
       \<le> MAX_MANIFEST_FILE_INFO_ENTRIES"
proof -
  have a: "n_results (manifest_put_mf no_files 0 (Some mf_100_results) digest_1 []) = 101"
    by (simp add: manifest_put_mf_def n_results_def n_file_infos_def MAX_MANIFEST_ENTRIES_def
        MAX_MANIFEST_FILE_INFO_ENTRIES_def add_result_entry_def add_file_info_indexes_def
        mf_100_results_def)
  have 1: "create_file_index_map [\<lparr>path_len = 3, path = ''b.h''\<rparr>] ''a.h'' = None"
    by (simp add: create_file_index_map_def)
  have 2: "create_file_info_index_map (map file_info_b [0..<10000]) fi = None"
    if "index fi = 1" for fi
  proof -
    have "fi \<notin> set (map file_info_b [0..<10000])"
      using that by (auto simp: file_info_b_def)
    moreover have "map fst (zip (map file_info_b [0..<10000])
        (map of_nat [0..<10000] :: 32 word list)) = map file_info_b [0..<10000]"
      by (rule map_fst_zip) simp
    ultimately show ?thesis
      unfolding create_file_info_index_map_def map_of_eq_None_iff set_map[symmetric] by simp
  qed
  have b: "n_file_infos (manifest_put_mf no_files 0 (Some mf_10000_file_infos) digest_1 inc_a)
      = 10001"
    by (simp add: manifest_put_mf_def n_results_def n_file_infos_def MAX_MANIFEST_ENTRIES_def
        MAX_MANIFEST_FILE_INFO_ENTRIES_def add_result_entry_def add_file_info_indexes_def
        mf_10000_file_infos_def get_file_info_index_def get_include_file_index_def 1 2
        make_file_info_def no_files_def Let_def n_files_def inc_a_def)
  show ?thesis
    unfolding a b by (simp add: MAX_MANIFEST_ENTRIES_def MAX_MANIFEST_FILE_INFO_ENTRIES_def)
qed

lemma get_file_info_index_stored:
  assumes g: "get_file_info_index stat_fn toc mf p d mfs (create_file_info_index_map base)
                = (i, mf1)"
    and pre: "file_infos mf = base @ ys"
    and len: "length (file_infos mf) < 2 ^ 32"
  shows "unat i < length (file_infos mf1) \<and>
         (\<exists>idx. file_infos mf1 ! unat i = make_file_info stat_fn toc idx p d)"
proof -
  obtain idx mf0 where gi: "get_include_file_index mf p mfs = (idx, mf0)"
    by (cases "get_include_file_index mf p mfs")
  define fi where "fi = make_file_info stat_fn toc idx p d"
  show ?thesis
  proof (cases "create_file_info_index_map base fi")
    case None
    with g gi have i: "i = of_nat (length (file_infos mf))"
      and m: "file_infos mf1 = file_infos mf @ [fi]"
      by (auto simp: get_file_info_index_def fi_def n_file_infos_def
          dest: get_include_file_index_tables)
    from len have "unat (of_nat (length (file_infos mf)) :: 32 word) = length (file_infos mf)"
      by (simp add: unat_of_nat)
    with i m show ?thesis by (auto simp: fi_def)
  next
    case (Some k)
    with g gi have i: "i = k" and m: "file_infos mf1 = file_infos mf"
      by (auto simp: get_file_info_index_def fi_def dest: get_include_file_index_tables)
    from pre len have "length base < 2 ^ 32" by simp
    with Some have "unat k < length base \<and> base ! unat k = fi"
      unfolding create_file_info_index_map_def by (rule index_map_SomeD)
    with i m pre show ?thesis by (auto simp: nth_append fi_def)
  qed
qed

lemma loop_stored:
  "add_file_info_indexes_loop stat_fn toc mfs (create_file_info_index_map base) mf items
     = (idxs, mf2)
   \<Longrightarrow> \<exists>ys. file_infos mf = base @ ys
   \<Longrightarrow> length (file_infos mf) + length items < 2 ^ 32
   \<Longrightarrow> j < length items
   \<Longrightarrow> unat (idxs ! j) < length (file_infos mf2) \<and>
       (\<exists>idx. file_infos mf2 ! unat (idxs ! j)
              = make_file_info stat_fn toc idx (fst (items ! j)) (snd (items ! j)))"
proof (induction items arbitrary: mf idxs mf2 j)
  case Nil
  then show ?case by simp
next
  case (Cons a items)
  let ?mfi = "create_file_info_index_map base"
  obtain p d where a: "a = (p, d)" by (cases a)
  obtain i mf1 where g: "get_file_info_index stat_fn toc mf p d mfs ?mfi = (i, mf1)"
    by (cases "get_file_info_index stat_fn toc mf p d mfs ?mfi")
  obtain is' mf2' where l: "add_file_info_indexes_loop stat_fn toc mfs ?mfi mf1 items = (is', mf2')"
    by (cases "add_file_info_indexes_loop stat_fn toc mfs ?mfi mf1 items")
  from Cons.prems(1) a g l have eq: "idxs = i # is'" "mf2 = mf2'" by auto
  from Cons.prems(2) obtain ys where ys: "file_infos mf = base @ ys" by blast
  from Cons.prems(3) have len: "length (file_infos mf) < 2 ^ 32" by simp
  from get_file_info_index_grow(2)[OF g] obtain zs
    where zs: "file_infos mf1 = file_infos mf @ zs" "length zs \<le> 1" by blast
  from loop_grow[OF l] obtain ws
    where ws: "file_infos mf2' = file_infos mf1 @ ws" by blast
  show ?case
  proof (cases j)
    case 0
    from get_file_info_index_stored[OF g ys len]
    have "unat i < length (file_infos mf1)"
      "\<exists>idx. file_infos mf1 ! unat i = make_file_info stat_fn toc idx p d" by simp_all
    then show ?thesis using 0 eq a ws by (auto simp: nth_append)
  next
    case (Suc j')
    have 1: "\<exists>ys. file_infos mf1 = base @ ys" using ys zs by simp
    have 2: "length (file_infos mf1) + length items < 2 ^ 32"
      using zs Cons.prems(3) by simp
    have 3: "j' < length items" using Suc Cons.prems(4) by simp
    from Cons.IH[OF l 1 2 3] show ?thesis using Suc eq by simp
  qed
qed

lemma make_file_info_stat:
  "stat_fn p = Some st \<Longrightarrow>
   (let fi = make_file_info stat_fn toc idx p d in
    digest fi = d \<and> fsize fi = st_size st \<and>
    (if sint toc \<le> sint (std_max (st_mtime st) (st_ctime st))
     then mtime fi = - 1 \<and> ctime fi = - 1
     else mtime fi = st_mtime st \<and> ctime fi = st_ctime st))"
  by (simp add: make_file_info_def Let_def)

text \<open>
  C3, as amended. For the \<open>j\<close>-th include file of the set given to \<open>manifest_put\<close>,
  if \<open>stat\<close> succeeds, the FileInfo that the new result entry refers to at position
  \<open>j\<close> holds the digest and the size of the file, and its time stamps are the sentinel
  \<open>-1\<close> exactly when \<open>time_of_compilation \<le> max (st_mtime, st_ctime)\<close>; otherwise they
  are the observed \<open>st_mtime\<close> and \<open>st_ctime\<close>. The bound on the number of include
  files keeps the 32-bit indexes from wrapping.
\<close>

theorem manifest_put_timestamps:
  assumes j: "j < length inc" and item: "inc ! j = (p, d)" and st: "stat_fn p = Some st"
    and len: "MAX_MANIFEST_FILE_INFO_ENTRIES + length inc < 2 ^ 32"
  shows "(let mf = manifest_put_mf stat_fn toc prior rn inc;
             fi = file_infos mf ! unat (file_info_indexes (last (results mf)) ! j)
         in digest fi = d \<and> fsize fi = st_size st \<and>
            (if sint toc \<le> sint (std_max (st_mtime st) (st_ctime st))
             then mtime fi = - 1 \<and> ctime fi = - 1
             else mtime fi = st_mtime st \<and> ctime fi = st_ctime st))"
proof -
  define mf0 where "mf0 = (case prior of Some m \<Rightarrow> m | None \<Rightarrow> create_empty_manifest)"
  define mf' where "mf' = (if n_results mf0 > MAX_MANIFEST_ENTRIES then create_empty_manifest
                 else if n_file_infos mf0 > MAX_MANIFEST_FILE_INFO_ENTRIES
                 then create_empty_manifest
                 else mf0)"
  have put: "manifest_put_mf stat_fn toc prior rn inc = add_result_entry stat_fn toc mf' rn inc"
    by (simp add: manifest_put_mf_def mf0_def mf'_def Let_def)
  have b: "length (file_infos mf') \<le> MAX_MANIFEST_FILE_INFO_ENTRIES"
    by (auto simp: mf'_def create_empty_manifest_def n_file_infos_def)
  obtain idxs mf1 where l: "add_file_info_indexes_loop stat_fn toc
             (create_file_index_map (files mf'))
             (create_file_info_index_map (file_infos mf')) mf' inc = (idxs, mf1)"
    by (cases "add_file_info_indexes_loop stat_fn toc (create_file_index_map (files mf'))
             (create_file_info_index_map (file_infos mf')) mf' inc")
  from j have ne: "length inc \<noteq> 0" by auto
  have res: "add_result_entry stat_fn toc mf' rn inc =
      mf1\<lparr>results := results mf1 @ [\<lparr>file_info_indexes = idxs, name = rn\<rparr>]\<rparr>"
    using l ne by (simp add: add_result_entry_def add_file_info_indexes_def)
  have "\<exists>ys. file_infos mf' = file_infos mf' @ ys" by simp
  moreover have "length (file_infos mf') + length inc < 2 ^ 32" using b len by simp
  ultimately have "\<exists>idx. file_infos mf1 ! unat (idxs ! j)
              = make_file_info stat_fn toc idx (fst (inc ! j)) (snd (inc ! j))"
    using loop_stored[OF l _ _ j] by blast
  then obtain idx where "file_infos mf1 ! unat (idxs ! j) = make_file_info stat_fn toc idx p d"
    using item by auto
  then show ?thesis
    using make_file_info_stat[of stat_fn p st toc idx d] st unfolding put res
    by (simp add: Let_def)
qed

lemma put_a_10:
  "manifest_put_mf fs_a_10 11 None digest_0 inc_a =
     \<lparr>files = [\<lparr>path_len = 3, path = ''a.h''\<rparr>],
      file_infos = [\<lparr>index = 0, digest = digest_1, fsize = 42, mtime = 10, ctime = 10\<rparr>],
      results = [\<lparr>file_info_indexes = [0], name = digest_0\<rparr>]\<rparr>"
  by (simp add: manifest_put_mf_def n_results_def n_file_infos_def MAX_MANIFEST_ENTRIES_def
      MAX_MANIFEST_FILE_INFO_ENTRIES_def add_result_entry_def add_file_info_indexes_def
      get_file_info_index_def get_include_file_index_def create_empty_manifest_def
      create_file_index_map_def create_file_info_index_map_def std_max_def
      make_file_info_def fs_a_10_def stat_a_10_def Let_def n_files_def inc_a_def)

lemma put_a_5_20:
  "manifest_put_mf fs_a_5_20 20 None digest_0 inc_a =
     \<lparr>files = [\<lparr>path_len = 3, path = ''a.h''\<rparr>],
      file_infos = [\<lparr>index = 0, digest = digest_1, fsize = 42, mtime = - 1, ctime = - 1\<rparr>],
      results = [\<lparr>file_info_indexes = [0], name = digest_0\<rparr>]\<rparr>"
  by (simp add: manifest_put_mf_def n_results_def n_file_infos_def MAX_MANIFEST_ENTRIES_def
      MAX_MANIFEST_FILE_INFO_ENTRIES_def add_result_entry_def add_file_info_indexes_def
      get_file_info_index_def get_include_file_index_def create_empty_manifest_def
      create_file_index_map_def create_file_info_index_map_def std_max_def
      make_file_info_def fs_a_5_20_def stat_a_5_20_def Let_def n_files_def inc_a_def)

theorem manifest_put_timestamps_witness:
  "0 < length inc_a \<and> inc_a ! 0 = (''a.h'', digest_1) \<and> fs_a_5_20 ''a.h'' = Some stat_a_5_20 \<and>
   MAX_MANIFEST_FILE_INFO_ENTRIES + length inc_a < 2 ^ 32 \<and>
   (let mf = manifest_put_mf fs_a_5_20 20 None digest_0 inc_a;
        fi = file_infos mf ! unat (file_info_indexes (last (results mf)) ! 0)
    in digest fi = digest_1 \<and> fsize fi = 42 \<and> mtime fi = - 1 \<and> ctime fi = - 1)"
proof -
  have h: "0 < length inc_a" "inc_a ! 0 = (''a.h'', digest_1)"
    "fs_a_5_20 ''a.h'' = Some stat_a_5_20"
    "MAX_MANIFEST_FILE_INFO_ENTRIES + length inc_a < 2 ^ 32"
    by (simp_all add: inc_a_def fs_a_5_20_def MAX_MANIFEST_FILE_INFO_ENTRIES_def)
  from manifest_put_timestamps[where j = 0 and inc = inc_a and p = "''a.h''" and d = digest_1
      and stat_fn = fs_a_5_20 and st = stat_a_5_20 and toc = 20 and prior = None
      and rn = digest_0] h
  show ?thesis
    by (simp add: Let_def stat_a_5_20_def std_max_def)
qed

text \<open>
  C3 as stated fails in both directions. With \<open>time_of_compilation = 11\<close> and
  \<open>st_mtime = st_ctime = 10\<close> the difference is one second, yet the observed time
  stamps are stored. With \<open>time_of_compilation = 20\<close>, \<open>st_mtime = 5\<close> and
  \<open>st_ctime = 20\<close> the mtime is 15 seconds old, yet the sentinel is stored, because
  the ctime is not older than the compilation.
\<close>

theorem manifest_put_timestamps_counterexample:
  "sint (11 :: 64 word) - sint (st_mtime stat_a_10) \<le> 1 \<and>
   mtime (file_infos (manifest_put_mf fs_a_10 11 None digest_0 inc_a) ! 0) = 10 \<and>
   ctime (file_infos (manifest_put_mf fs_a_10 11 None digest_0 inc_a) ! 0) = 10 \<and>
   \<not> sint (20 :: 64 word) - sint (st_mtime stat_a_5_20) \<le> 1 \<and>
   mtime (file_infos (manifest_put_mf fs_a_5_20 20 None digest_0 inc_a) ! 0) = - 1 \<and>
   ctime (file_infos (manifest_put_mf fs_a_5_20 20 None digest_0 inc_a) ! 0) = - 1"
  unfolding put_a_10 put_a_5_20 by (simp add: stat_a_10_def stat_a_5_20_def)

section \<open>Writing and reading back a manifest\<close>


lemma UINT16_roundtrip: "UINT16_FROM_BYTES (BYTES_FROM_UINT16 v) = v"
  unfolding UINT16_FROM_BYTES_def BYTES_FROM_UINT16_def
  apply (rule bit_word_eqI)
  subgoal for n
    by (cases "n < 8") (auto simp: bit_simps)
  done

lemma UINT32_roundtrip: "UINT32_FROM_BYTES (BYTES_FROM_UINT32 v) = v"
  unfolding UINT32_FROM_BYTES_def BYTES_FROM_UINT32_def
  apply (rule bit_word_eqI)
  subgoal for n
    by (cases "n < 8"; cases "n < 16"; cases "n < 24") (auto simp: bit_simps)
  done

lemma UINT64_roundtrip: "UINT64_FROM_BYTES (BYTES_FROM_UINT64 v) = v"
  unfolding UINT64_FROM_BYTES_def BYTES_FROM_UINT64_def
  apply (rule bit_word_eqI)
  subgoal for n
    by (cases "n < 8"; cases "n < 16"; cases "n < 24"; cases "n < 32"; cases "n < 40";
        cases "n < 48"; cases "n < 56") (auto simp: bit_simps)
  done


lemma INT64_roundtrip: "INT64_FROM_BYTES (BYTES_FROM_INT64 v) = v"
  by (simp add: INT64_FROM_BYTES_def BYTES_FROM_INT64_def UINT64_roundtrip)

lemma length_BYTES:
  "length (BYTES_FROM_UINT16 a) = 2" "length (BYTES_FROM_UINT32 b) = 4"
  "length (BYTES_FROM_UINT64 c) = 8" "length (BYTES_FROM_INT64 c) = 8"
  by (simp_all add: BYTES_FROM_UINT16_def BYTES_FROM_UINT32_def BYTES_FROM_UINT64_def
      BYTES_FROM_INT64_def)

lemma char_of_byte_of_char: "char_of_byte (byte_of_char c) = c"
  unfolding char_of_byte_def byte_of_char_def by (simp add: unat_of_nat)

lemma READ_BYTES_append:
  "length xs = n \<Longrightarrow>
   READ_BYTES n \<lparr>checksum_input = ci, remaining = xs @ rest\<rparr>
     = Some (xs, \<lparr>checksum_input = ci @ xs, remaining = rest\<rparr>)"
  by (simp add: READ_BYTES_def)

lemma READ_UINT16_inverts: "inverts READ_UINT16 BYTES_FROM_UINT16 v"
  by (simp add: inverts_def READ_UINT16_def READ_BYTES_append UINT16_roundtrip length_BYTES)

lemma READ_UINT32_inverts: "inverts READ_UINT32 BYTES_FROM_UINT32 v"
  by (simp add: inverts_def READ_UINT32_def READ_BYTES_append UINT32_roundtrip length_BYTES)

lemma READ_UINT64_inverts: "inverts READ_UINT64 BYTES_FROM_UINT64 v"
  by (simp add: inverts_def READ_UINT64_def READ_BYTES_append UINT64_roundtrip length_BYTES)

lemma READ_INT64_inverts: "inverts READ_INT64 BYTES_FROM_INT64 v"
  by (simp add: inverts_def READ_INT64_def READ_BYTES_append INT64_roundtrip length_BYTES)

lemma invertsD:
  "inverts rd wr x \<Longrightarrow> rd \<lparr>checksum_input = ci, remaining = wr x @ rest\<rparr>
        = Some (x, \<lparr>checksum_input = ci @ wr x, remaining = rest\<rparr>)"
  by (simp add: inverts_def)

lemma read_n_inverts:
  "list_all (inverts rd wr) xs \<Longrightarrow>
   read_n (length xs) rd \<lparr>checksum_input = ci, remaining = concat (map wr xs) @ rest\<rparr>
     = Some (xs, \<lparr>checksum_input = ci @ concat (map wr xs), remaining = rest\<rparr>)"
proof (induction xs arbitrary: ci)
  case Nil
  then show ?case by simp
next
  case (Cons x xs)
  then have x: "inverts rd wr x" and xs: "list_all (inverts rd wr) xs" by simp_all
  show ?case
    using invertsD[OF x, of ci "concat (map wr xs) @ rest"] Cons.IH[OF xs, of "ci @ wr x"]
    by simp
qed


lemma READ_STR_inverts:
  assumes "unat (path_len f) = length (path f)" "CHR 0x00 \<notin> set (path f)"
  shows "inverts READ_STR write_file_entry f"
proof -
  let ?bs = "map byte_of_char (path f)"
  have t: "takeWhile (\<lambda>c. c \<noteq> CHR 0x00) (path f) = path f"
    using assms(2) by (auto simp: takeWhile_eq_all_conv)
  have m: "map char_of_byte ?bs = path f"
    by (simp add: comp_def char_of_byte_of_char)
  have l: "length ?bs = unat (path_len f)"
    using assms(1) by simp
  have w: "write_file_entry f = BYTES_FROM_UINT16 (path_len f) @ ?bs"
    using l by (simp add: write_file_entry_def)
  have f: "\<lparr>path_len = path_len f, path = path f\<rparr> = f" by simp
  show ?thesis
    unfolding inverts_def
  proof (intro allI)
    fix ci rest
    define st1 where "st1 = \<lparr>checksum_input = ci @ BYTES_FROM_UINT16 (path_len f),
                  remaining = ?bs @ rest\<rparr>"
    define st2 where "st2 = \<lparr>checksum_input = (ci @ BYTES_FROM_UINT16 (path_len f)) @ ?bs,
                  remaining = rest\<rparr>"
    have 1: "READ_UINT16 \<lparr>checksum_input = ci, remaining = write_file_entry f @ rest\<rparr>
        = Some (path_len f, st1)"
      using invertsD[OF READ_UINT16_inverts, of ci "path_len f" "?bs @ rest"]
      by (simp add: w st1_def)
    have 2: "READ_BYTES (unat (path_len f)) st1 = Some (?bs, st2)"
      unfolding st1_def st2_def by (rule READ_BYTES_append) (rule l)
    have "READ_STR \<lparr>checksum_input = ci, remaining = write_file_entry f @ rest\<rparr> =
       Some (\<lparr>path_len = path_len f, path = takeWhile (\<lambda>c. c \<noteq> CHR 0x00) (map char_of_byte ?bs)\<rparr>,
             st2)"
      by (simp add: READ_STR_def 1 2)
    also have "\<dots> = Some (f, \<lparr>checksum_input = ci @ write_file_entry f, remaining = rest\<rparr>)"
      unfolding m t f by (simp add: st2_def w)
    finally show "READ_STR \<lparr>checksum_input = ci, remaining = write_file_entry f @ rest\<rparr> =
       Some (f, \<lparr>checksum_input = ci @ write_file_entry f, remaining = rest\<rparr>)" .
  qed
qed


lemma read_file_info_inverts:
  assumes "length (digest fi) = DIGEST_SIZE"
  shows "inverts read_file_info write_file_info fi"
  unfolding inverts_def read_file_info_def write_file_info_def
  using assms
  by (simp add: invertsD[OF READ_UINT32_inverts] invertsD[OF READ_UINT64_inverts]
      invertsD[OF READ_INT64_inverts] READ_BYTES_append)


lemma read_result_inverts:
  assumes "length (file_info_indexes r) < 2 ^ 32" "length (name r) = DIGEST_SIZE"
  shows "inverts read_result write_result r"
proof -
  have u: "unat (of_nat (length (file_info_indexes r)) :: 32 word) = length (file_info_indexes r)"
    using assms(1) by (simp add: unat_of_nat)
  have a: "list_all (inverts READ_UINT32 BYTES_FROM_UINT32) (file_info_indexes r)"
    by (simp add: list_all_iff READ_UINT32_inverts)
  show ?thesis
    unfolding inverts_def read_result_def write_result_def
    using assms(2)
    by (simp add: invertsD[OF READ_UINT32_inverts] u read_n_inverts[OF a] READ_BYTES_append)
qed


lemma read_manifest_body_inverts:
  assumes "representable mf"
  shows "read_manifest_body xxh
           \<lparr>checksum_input = [], remaining = manifest_body mf @ BYTES_FROM_UINT64 c @ rest\<rparr>
         = Some (mf, xxh (manifest_body mf), c)"
proof -
  from assms have len: "length (files mf) < 2 ^ 32" "length (file_infos mf) < 2 ^ 32"
    "length (results mf) < 2 ^ 32"
    and fs: "list_all (\<lambda>f. unat (path_len f) = length (path f) \<and> CHR 0x00 \<notin> set (path f))
       (files mf)"
    and fis: "list_all (\<lambda>fi. length (digest fi) = DIGEST_SIZE) (file_infos mf)"
    and rs: "list_all (\<lambda>r. length (file_info_indexes r) < 2 ^ 32 \<and> length (name r) = DIGEST_SIZE)
       (results mf)"
    by (simp_all add: representable_def)
  define nf :: "32 word" where "nf = of_nat (length (files mf))"
  define nfi :: "32 word" where "nfi = of_nat (length (file_infos mf))"
  define nr :: "32 word" where "nr = of_nat (length (results mf))"
  have u: "unat nf = length (files mf)" "unat nfi = length (file_infos mf)"
    "unat nr = length (results mf)"
    using len by (simp_all add: unat_of_nat nf_def nfi_def nr_def)
  have a: "list_all (inverts READ_STR write_file_entry) (files mf)"
    using fs by (auto simp: list_all_iff intro: READ_STR_inverts)
  have b: "list_all (inverts read_file_info write_file_info) (file_infos mf)"
    using fis by (auto simp: list_all_iff intro: read_file_info_inverts)
  have c: "list_all (inverts read_result write_result) (results mf)"
    using rs by (auto simp: list_all_iff intro: read_result_inverts)
  define A where "A = concat (map write_file_entry (files mf))"
  define B where "B = concat (map write_file_info (file_infos mf))"
  define C where "C = concat (map write_result (results mf))"
  have body: "manifest_body mf
      = BYTES_FROM_UINT32 nf @ A @ BYTES_FROM_UINT32 nfi @ B @ BYTES_FROM_UINT32 nr @ C"
    by (simp add: manifest_body_def n_files_def n_file_infos_def n_results_def
        nf_def nfi_def nr_def A_def B_def C_def)
  have ra: "read_n (unat nf) READ_STR \<lparr>checksum_input = ci, remaining = A @ r\<rparr>
      = Some (files mf, \<lparr>checksum_input = ci @ A, remaining = r\<rparr>)" for ci r
    unfolding u A_def by (rule read_n_inverts[OF a])
  have rb: "read_n (unat nfi) read_file_info \<lparr>checksum_input = ci, remaining = B @ r\<rparr>
      = Some (file_infos mf, \<lparr>checksum_input = ci @ B, remaining = r\<rparr>)" for ci r
    unfolding u B_def by (rule read_n_inverts[OF b])
  have rc: "read_n (unat nr) read_result \<lparr>checksum_input = ci, remaining = C @ r\<rparr>
      = Some (results mf, \<lparr>checksum_input = ci @ C, remaining = r\<rparr>)" for ci r
    unfolding u C_def by (rule read_n_inverts[OF c])
  have mf: "\<lparr>files = files mf, file_infos = file_infos mf, results = results mf\<rparr> = mf"
    by simp
  show ?thesis
    unfolding read_manifest_body_def body
    by (simp add: invertsD[OF READ_UINT32_inverts] ra rb rc invertsD[OF READ_UINT64_inverts])
qed

lemma read_manifest_after_header:
  assumes "representable mf"
    and "common_header_initialize_for_reading env bytes
      = Some \<lparr>checksum_input = [],
          remaining = manifest_body mf @ BYTES_FROM_UINT64 (XXH64 env (manifest_body mf))\<rparr>"
  shows "read_manifest env (Some bytes) = Inr mf"
proof -
  have b: "read_manifest_body (XXH64 env) \<lparr>checksum_input = [],
          remaining = manifest_body mf @ BYTES_FROM_UINT64 (XXH64 env (manifest_body mf))\<rparr>
      = Some (mf, XXH64 env (manifest_body mf), XXH64 env (manifest_body mf))"
    using read_manifest_body_inverts[OF assms(1), of "XXH64 env" "XXH64 env (manifest_body mf)" "[]"]
    by simp
  show ?thesis
    unfolding read_manifest_def by (simp add: assms(2) b)
qed

lemma header_then_stream:
  "\<not> length (common_header_bytes t l n @ out) < COMMON_HEADER_SIZE"
  "take 4 (common_header_bytes t l n @ out) = MANIFEST_MAGIC"
  "(common_header_bytes t l n @ out) ! 4 = MANIFEST_VERSION"
  "(common_header_bytes t l n @ out) ! 5 = t"
  "drop COMMON_HEADER_SIZE (common_header_bytes t l n @ out) = out"
  by (simp_all add: common_header_bytes_def COMMON_HEADER_SIZE_def MANIFEST_MAGIC_def
      nth_append length_BYTES)

text \<open>
  C6. For every manifest that the C structs can hold and every stream layer whose
  decompressor undoes its compressor: if \<open>write_manifest\<close> succeeds, \<open>read_manifest\<close>
  on the bytes it produced succeeds and returns the same manifest: the same \<open>files\<close>,
  \<open>file_infos\<close> and \<open>results\<close>, in the same order.
\<close>

theorem manifest_roundtrip:
  assumes "representable mf" and "stream_roundtrip env"
    and "write_manifest env mf = Some bytes"
  shows "read_manifest env (Some bytes) = Inr mf"
proof -
  let ?t = "compression_type_from_config env"
  let ?stream = "manifest_body mf @ BYTES_FROM_UINT64 (XXH64 env (manifest_body mf))"
  from assms(3) obtain out where out: "compressor env ?t ?stream = Some out"
    and bytes: "bytes = common_header_bytes ?t (compression_level_from_config env)
        (content_size_of mf) @ out"
    by (auto simp: write_manifest_def Let_def split: option.splits)
  from assms(2) out have d: "decompressor env ?t out = Some ?stream"
    by (simp add: stream_roundtrip_def)
  have h: "common_header_initialize_for_reading env bytes
      = Some \<lparr>checksum_input = [], remaining = ?stream\<rparr>"
    unfolding bytes common_header_initialize_for_reading_def
    by (simp only: header_then_stream d if_False simp_thms option.case)
  from assms(1) h show ?thesis by (rule read_manifest_after_header)
qed

lemma representable_mf_a: "representable mf_a"
  by (simp add: representable_def mf_a_def DIGEST_SIZE_def digest_0_def digest_1_def)

lemma stream_roundtrip_env_plain: "stream_roundtrip env_plain"
  by (simp add: stream_roundtrip_def env_plain_def plain_stream_def)

lemma write_manifest_mf_a: "write_manifest env_plain mf_a = Some bytes_a"
  by (simp add: write_manifest_def env_plain_def plain_stream_def bytes_a_def Let_def)

lemma read_manifest_bytes_a: "read_manifest env_plain (Some bytes_a) = Inr mf_a"
proof (rule read_manifest_after_header[OF representable_mf_a])
  show "common_header_initialize_for_reading env_plain bytes_a
      = Some \<lparr>checksum_input = [],
          remaining = manifest_body mf_a
            @ BYTES_FROM_UINT64 (XXH64 env_plain (manifest_body mf_a))\<rparr>"
    unfolding bytes_a_def common_header_initialize_for_reading_def
    by (simp only: header_then_stream if_False simp_thms)
      (simp add: env_plain_def plain_stream_def)
qed

theorem manifest_roundtrip_witness:
  "representable mf_a \<and> stream_roundtrip env_plain \<and>
   write_manifest env_plain mf_a = Some bytes_a \<and>
   read_manifest env_plain (Some bytes_a) = Inr mf_a"
  using manifest_roundtrip[OF representable_mf_a stream_roundtrip_env_plain write_manifest_mf_a]
    representable_mf_a stream_roundtrip_env_plain write_manifest_mf_a
  by simp

section \<open>Soundness of manifest_get\<close>

lemma lookup_stat_ok:
  assumes "caches_ok env config c" "lookup_stat env p c = Some (fs, c1)"
  shows "caches_ok env config c1 \<and>
         (\<exists>st. x_stat env p = Some st \<and>
            fs = \<lparr>fs_size = st_size st, fs_mtime = st_mtime st, fs_ctime = st_ctime st\<rparr>)"
  using assms
  by (auto simp: lookup_stat_def caches_ok_def Let_def split: option.splits if_splits)

lemma lookup_hash_ok:
  assumes "caches_ok env config c" "lookup_hash env config p c = Some (d, c1)"
  shows "caches_ok env config c1 \<and>
         HASH_SOURCE_CODE_ERROR \<notin> fst (hash_source_code_file env config p) \<and>
         HASH_SOURCE_CODE_FOUND_TIME \<notin> fst (hash_source_code_file env config p) \<and>
         d = snd (hash_source_code_file env config p)"
  using assms
  by (auto simp: lookup_hash_def caches_ok_def Let_def split: option.splits prod.splits if_splits)

lemma verify_file_info_sound:
  assumes ok: "caches_ok env config c" and v: "verify_file_info env config fi p c = (b, c')"
  shows "caches_ok env config c' \<and> (b \<longrightarrow> file_info_verified env config fi p)"
proof (cases "lookup_stat env p c")
  case None
  with v ok show ?thesis by (simp add: verify_file_info_def)
next
  case (Some a)
  obtain fs c1 where a: "a = (fs, c1)" by (cases a)
  from lookup_stat_ok[OF ok Some[unfolded a]] obtain st where c1: "caches_ok env config c1"
    and st: "x_stat env p = Some st"
    and fs: "fs = \<lparr>fs_size = st_size st, fs_mtime = st_mtime st, fs_ctime = st_ctime st\<rparr>"
    by blast
  show ?thesis
  proof (cases "lookup_hash env config p c1")
    case None
    with v Some a c1 st fs show ?thesis
      by (auto simp: verify_file_info_def file_info_verified_def stat_matches_def
          split: if_splits)
  next
    case (Some h)
    obtain d c2 where h: "h = (d, c2)" by (cases h)
    from lookup_hash_ok[OF c1 Some[unfolded h]]
    have c2: "caches_ok env config c2"
      and hh: "HASH_SOURCE_CODE_ERROR \<notin> fst (hash_source_code_file env config p)"
      "HASH_SOURCE_CODE_FOUND_TIME \<notin> fst (hash_source_code_file env config p)"
      "d = snd (hash_source_code_file env config p)" by simp_all
    from v \<open>lookup_stat env p c = Some a\<close> a Some h c1 c2 st fs hh show ?thesis
      by (auto simp: verify_file_info_def file_info_verified_def stat_matches_def
          split: if_splits)
  qed
qed

lemma verify_result_loop_sound:
  "caches_ok env config c \<Longrightarrow> verify_result_loop env config mf ks c = Returns (b, c') \<Longrightarrow>
   caches_ok env config c' \<and>
   (b \<longrightarrow> list_all (\<lambda>k. unat k < length (file_infos mf) \<and>
                 (let fi = file_infos mf ! unat k
                  in unat (index fi) < length (files mf) \<and>
                     file_info_verified env config fi (path (files mf ! unat (index fi))))) ks)"
proof (induction ks arbitrary: c)
  case Nil
  then show ?case by simp
next
  case (Cons k ks)
  let ?fi = "file_infos mf ! unat k"
  let ?p = "path (files mf ! unat (index ?fi))"
  from Cons.prems(2) have r1: "unat k < length (file_infos mf)"
    and r2: "unat (index ?fi) < length (files mf)"
    by (auto simp: Let_def split: if_splits)
  obtain ok c1 where v: "verify_file_info env config ?fi ?p c = (ok, c1)"
    by (cases "verify_file_info env config ?fi ?p c")
  from verify_file_info_sound[OF Cons.prems(1) v]
  have c1: "caches_ok env config c1" and f: "ok \<longrightarrow> file_info_verified env config ?fi ?p"
    by simp_all
  show ?case
  proof (cases ok)
    case True
    with Cons.prems(2) r1 r2 v have "verify_result_loop env config mf ks c1 = Returns (b, c')"
      by (simp add: Let_def)
    from Cons.IH[OF c1 this] True f r1 r2 show ?thesis by (simp add: Let_def)
  next
    case False
    with Cons.prems(2) r1 r2 v have "b = False" "c' = c1" by (simp_all add: Let_def)
    with c1 show ?thesis by simp
  qed
qed

lemma verify_result_sound:
  "caches_ok env config c \<Longrightarrow> verify_result env config mf r c = Returns (b, c') \<Longrightarrow>
   caches_ok env config c' \<and> (b \<longrightarrow> entry_verified env config mf r)"
  unfolding verify_result_def entry_verified_def by (rule verify_result_loop_sound)

lemma manifest_get_loop_sound:
  "caches_ok env config c \<Longrightarrow> manifest_get_loop env config mf rs c = Returns (Some nm) \<Longrightarrow>
   \<exists>r \<in> set rs. name r = nm \<and> entry_verified env config mf r"
proof (induction rs arbitrary: c)
  case Nil
  then show ?case by simp
next
  case (Cons r rs)
  from Cons.prems(2) obtain ok c1 where v: "verify_result env config mf r c = Returns (ok, c1)"
    by (auto split: c_result.splits)
  from verify_result_sound[OF Cons.prems(1) v]
  have c1: "caches_ok env config c1" and e: "ok \<longrightarrow> entry_verified env config mf r" by simp_all
  show ?case
  proof (cases ok)
    case True
    with Cons.prems(2) v e show ?thesis by simp
  next
    case False
    with Cons.prems(2) v have "manifest_get_loop env config mf rs c1 = Returns (Some nm)" by simp
    from Cons.IH[OF c1 this] show ?thesis by auto
  qed
qed

lemma caches_ok_empty:
  "caches_ok env config \<lparr>stated_files = Map.empty, hashed_files = Map.empty\<rparr>"
  by (simp add: caches_ok_def)

lemma verified_no_time:
  "file_info_verified env config fi p \<Longrightarrow> \<not> rehash_finds_time env config fi p"
  by (auto simp: file_info_verified_def rehash_finds_time_def stat_matches_def
      split: option.splits if_splits)

text \<open>
  C1. Whenever \<open>manifest_get\<close> returns a result name, the manifest was read and it has
  an entry with that name all of whose FileInfos are in range and verified against the
  file system as it is: the current size is the recorded \<open>fsize\<close>, and either the
  current digest is the recorded one (the file having been hashed without an error and
  without a temporal macro), or \<open>file_stat_matches\<close> is set and the recorded time
  stamps are the current ones (\<open>mtime\<close> and \<open>ctime\<close>, or \<open>mtime\<close> alone with
  \<open>file_stat_matches_ctime\<close>).
\<close>

theorem manifest_get_sound:
  assumes "manifest_get env senv config manifest_file = Returns (Some nm)"
  shows "\<exists>mf r. read_manifest senv manifest_file = Inr mf \<and> r \<in> set (results mf) \<and>
           name r = nm \<and> entry_verified env config mf r"
proof -
  from assms obtain mf where mf: "read_manifest senv manifest_file = Inr mf"
    and l: "manifest_get_loop env config mf (rev (results mf))
            \<lparr>stated_files = Map.empty, hashed_files = Map.empty\<rparr> = Returns (Some nm)"
    by (auto simp: manifest_get_def split: sum.splits)
  from manifest_get_loop_sound[OF caches_ok_empty l] mf show ?thesis by auto
qed

lemma verify_result_a:
  "verify_result env_a config_default mf_a result_a no_caches =
     Returns (True, \<lparr>stated_files = [''a.h'' \<mapsto> \<lparr>fs_size = 42, fs_mtime = 10, fs_ctime = 10\<rparr>],
                     hashed_files = [''a.h'' \<mapsto> digest_1]\<rparr>)"
  by (simp add: verify_result_def result_a_def mf_a_def verify_file_info_def lookup_stat_def
      lookup_hash_def no_caches_def env_a_def fs_a_10_def stat_a_10_def hash_plain_def
      config_default_def stat_matches_def Let_def)

lemma manifest_get_a:
  "manifest_get env_a env_plain config_default (Some bytes_a) = Returns (Some digest_0)"
proof -
  have "results mf_a = [result_a]" by (simp add: mf_a_def result_a_def)
  then show ?thesis
    using verify_result_a
    by (simp add: manifest_get_def read_manifest_bytes_a no_caches_def result_a_def)
qed

theorem manifest_get_sound_witness:
  "manifest_get env_a env_plain config_default (Some bytes_a) = Returns (Some digest_0) \<and>
   (\<exists>mf r. read_manifest env_plain (Some bytes_a) = Inr mf \<and> r \<in> set (results mf) \<and>
           name r = digest_0 \<and> entry_verified env_a config_default mf r)"
  using manifest_get_sound[OF manifest_get_a] manifest_get_a by simp

text \<open>
  C9, as the code has it. \<open>verify_result\<close> does not accept an entry that refers to a
  file which has to be hashed again and in which the hasher reports
  \<open>HASH_SOURCE_CODE_FOUND_TIME\<close>, whatever the digest of the file is; so the entry
  whose name \<open>manifest_get\<close> returns refers to no such file. This is the only flag of
  a temporal macro that \<open>verify_result\<close> tests. The caches are the ones
  \<open>manifest_get\<close> keeps: they hold what the file system and the hasher return.
\<close>

theorem manifest_get_rejects_time_macro:
  "(caches_ok env config c \<and> k \<in> set (file_info_indexes r) \<and>
    unat k < length (file_infos mf) \<and>
    unat (index (file_infos mf ! unat k)) < length (files mf) \<and>
    rehash_finds_time env config (file_infos mf ! unat k)
      (path (files mf ! unat (index (file_infos mf ! unat k))))
    \<longrightarrow> (\<forall>c'. verify_result env config mf r c \<noteq> Returns (True, c'))) \<and>
   (manifest_get env senv config manifest_file = Returns (Some nm)
    \<longrightarrow> (\<exists>mf' r'. read_manifest senv manifest_file = Inr mf' \<and> r' \<in> set (results mf') \<and>
          name r' = nm \<and>
          list_all (\<lambda>k'. \<not> rehash_finds_time env config (file_infos mf' ! unat k')
                     (path (files mf' ! unat (index (file_infos mf' ! unat k')))))
            (file_info_indexes r')))"
proof (intro conjI impI allI)
  fix c'
  assume a: "caches_ok env config c \<and> k \<in> set (file_info_indexes r) \<and>
    unat k < length (file_infos mf) \<and>
    unat (index (file_infos mf ! unat k)) < length (files mf) \<and>
    rehash_finds_time env config (file_infos mf ! unat k)
      (path (files mf ! unat (index (file_infos mf ! unat k))))"
  show "verify_result env config mf r c \<noteq> Returns (True, c')"
  proof
    assume "verify_result env config mf r c = Returns (True, c')"
    with a have "entry_verified env config mf r"
      using verify_result_sound[of env config c mf r True c'] by simp
    with a have "file_info_verified env config (file_infos mf ! unat k)
      (path (files mf ! unat (index (file_infos mf ! unat k))))"
      by (auto simp: entry_verified_def list_all_iff Let_def)
    with a show False using verified_no_time by blast
  qed
next
  assume g: "manifest_get env senv config manifest_file = Returns (Some nm)"
  then obtain mf' where mf: "read_manifest senv manifest_file = Inr mf'"
    and l: "manifest_get_loop env config mf' (rev (results mf'))
            \<lparr>stated_files = Map.empty, hashed_files = Map.empty\<rparr> = Returns (Some nm)"
    by (auto simp: manifest_get_def split: sum.splits)
  from manifest_get_loop_sound[OF caches_ok_empty l]
  obtain r' where r: "r' \<in> set (results mf')" "name r' = nm" "entry_verified env config mf' r'"
    by auto
  from r(3) have "list_all (\<lambda>k'. \<not> rehash_finds_time env config (file_infos mf' ! unat k')
                     (path (files mf' ! unat (index (file_infos mf' ! unat k')))))
            (file_info_indexes r')"
    by (auto simp: entry_verified_def list_all_iff Let_def dest: verified_no_time)
  with mf r show "\<exists>mf' r'. read_manifest senv manifest_file = Inr mf' \<and> r' \<in> set (results mf') \<and>
          name r' = nm \<and>
          list_all (\<lambda>k'. \<not> rehash_finds_time env config (file_infos mf' ! unat k')
                     (path (files mf' ! unat (index (file_infos mf' ! unat k')))))
            (file_info_indexes r')"
    by blast
qed

lemma rehash_finds_time_a:
  "rehash_finds_time env_a_time config_default (file_infos mf_a ! unat (0 :: 32 word))
      (path (files mf_a ! unat (index (file_infos mf_a ! unat (0 :: 32 word)))))"
  by (simp add: rehash_finds_time_def env_a_time_def mf_a_def fs_a_10_def stat_matches_def
      config_default_def hash_with_time_def)

theorem manifest_get_rejects_time_macro_witness:
  "caches_ok env_a_time config_default no_caches \<and>
   (0 :: 32 word) \<in> set (file_info_indexes result_a) \<and>
   unat (0 :: 32 word) < length (file_infos mf_a) \<and>
   rehash_finds_time env_a_time config_default (file_infos mf_a ! unat (0 :: 32 word))
      (path (files mf_a ! unat (index (file_infos mf_a ! unat (0 :: 32 word))))) \<and>
   (\<forall>c'. verify_result env_a_time config_default mf_a result_a no_caches \<noteq> Returns (True, c')) \<and>
   manifest_get env_a env_plain config_default (Some bytes_a) = Returns (Some digest_0) \<and>
   (\<exists>mf' r'. read_manifest env_plain (Some bytes_a) = Inr mf' \<and> r' \<in> set (results mf') \<and>
          name r' = digest_0 \<and>
          list_all (\<lambda>k'. \<not> rehash_finds_time env_a config_default (file_infos mf' ! unat k')
                     (path (files mf' ! unat (index (file_infos mf' ! unat k')))))
            (file_info_indexes r'))"
proof -
  have c: "caches_ok env_a_time config_default no_caches"
    unfolding no_caches_def by (rule caches_ok_empty)
  have k: "(0 :: 32 word) \<in> set (file_info_indexes result_a)"
    "unat (0 :: 32 word) < length (file_infos mf_a)"
    "unat (index (file_infos mf_a ! unat (0 :: 32 word))) < length (files mf_a)"
    by (simp_all add: result_a_def mf_a_def)
  have 1: "\<forall>c'. verify_result env_a_time config_default mf_a result_a no_caches
      \<noteq> Returns (True, c')"
    using manifest_get_rejects_time_macro[where env = env_a_time and config = config_default
        and c = no_caches and k = 0 and r = result_a and mf = mf_a]
      c k rehash_finds_time_a
    by blast
  have 2: "\<exists>mf' r'. read_manifest env_plain (Some bytes_a) = Inr mf' \<and> r' \<in> set (results mf') \<and>
          name r' = digest_0 \<and>
          list_all (\<lambda>k'. \<not> rehash_finds_time env_a config_default (file_infos mf' ! unat k')
                     (path (files mf' ! unat (index (file_infos mf' ! unat k')))))
            (file_info_indexes r')"
    using manifest_get_rejects_time_macro[where env = env_a and config = config_default
        and senv = env_plain and manifest_file = "Some bytes_a" and nm = digest_0]
      manifest_get_a
    by blast
  from c k rehash_finds_time_a 1 manifest_get_a 2 show ?thesis by blast
qed

text \<open>
  C9 as stated fails on \<open>__DATE__\<close>. The header \<open>a.h\<close> has the recorded size and
  no sloppiness accepts its time stamps, so it is hashed again; the hasher reports
  \<open>HASH_SOURCE_CODE_FOUND_DATE\<close> and neither an error nor
  \<open>HASH_SOURCE_CODE_FOUND_TIME\<close>. \<open>verify_result\<close> goes on to compare the digests,
  they are equal, and \<open>manifest_get\<close> returns the name of the entry.
\<close>

lemma verify_result_a_date:
  "verify_result env_a_date config_default mf_a result_a no_caches =
     Returns (True, \<lparr>stated_files = [''a.h'' \<mapsto> \<lparr>fs_size = 42, fs_mtime = 10, fs_ctime = 10\<rparr>],
                     hashed_files = [''a.h'' \<mapsto> digest_1]\<rparr>)"
  by (simp add: verify_result_def result_a_def mf_a_def verify_file_info_def lookup_stat_def
      lookup_hash_def no_caches_def env_a_date_def fs_a_10_def stat_a_10_def hash_with_date_def
      config_default_def stat_matches_def Let_def)

lemma manifest_get_a_date:
  "manifest_get env_a_date env_plain config_default (Some bytes_a) = Returns (Some digest_0)"
proof -
  have "results mf_a = [result_a]" by (simp add: mf_a_def result_a_def)
  then show ?thesis
    using verify_result_a_date
    by (simp add: manifest_get_def read_manifest_bytes_a no_caches_def result_a_def)
qed

theorem manifest_get_rejects_time_macro_counterexample:
  "hash_source_code_file env_a_date config_default ''a.h''
     = ({HASH_SOURCE_CODE_FOUND_DATE}, digest_1) \<and>
   x_stat env_a_date ''a.h'' = Some stat_a_10 \<and>
   fsize file_info_a = st_size stat_a_10 \<and>
   \<not> stat_matches config_default file_info_a
       \<lparr>fs_size = st_size stat_a_10, fs_mtime = st_mtime stat_a_10,
          fs_ctime = st_ctime stat_a_10\<rparr> \<and>
   file_infos mf_a = [file_info_a] \<and> file_info_indexes result_a = [0] \<and>
   results mf_a = [result_a] \<and>
   read_manifest env_plain (Some bytes_a) = Inr mf_a \<and>
   manifest_get env_a_date env_plain config_default (Some bytes_a) = Returns (Some digest_0)"
  using manifest_get_a_date read_manifest_bytes_a
  by (simp add: env_a_date_def hash_with_date_def fs_a_10_def stat_a_10_def file_info_a_def
      stat_matches_def config_default_def mf_a_def result_a_def)
section \<open>Failures and ignored files in remember_include_file\<close>








section \<open>A failing compiler\<close>

lemma merge_stderr_stores_nothing:
  "merge_stderr w = Some (ev, captured) \<Longrightarrow>
     list_all (\<lambda>e. \<not> stores e) ev \<and> list_all (\<lambda>e. \<forall>s. e \<noteq> Copy_to_stderr s) ev"
  by (auto simp: merge_stderr_def split: option.splits if_splits)

text \<open>
  C7, as amended. When the compiler exits with a nonzero status, \<open>to_cache\<close> stores
  nothing (no \<open>result_put\<close>, no manifest update) and does not return. If the run
  reaches the test of the exit status (the captured stdout is there and empty, or the
  compiler is distcc-pump; the stderr files could be merged; \<open>tmp_stderr\<close> can be
  opened), the captured stderr is copied to stderr and the process exits with exactly
  the status of the compiler. Otherwise \<open>failed()\<close> runs the real compiler again on
  the original arguments, and the captured stderr is not copied.
\<close>

theorem compiler_failure_propagation:
  assumes "status w \<noteq> 0"
  shows "list_all (\<lambda>e. \<not> stores e) (fst (to_cache_after_execute w)) \<and>
         snd (to_cache_after_execute w) \<noteq> Returned \<and>
         (case reaches_status_test w of
            Some captured \<Rightarrow>
              snd (to_cache_after_execute w) = X_exit (status w) \<and>
              Copy_to_stderr captured \<in> set (fst (to_cache_after_execute w))
          | None \<Rightarrow>
              snd (to_cache_after_execute w) = Failed \<and>
              list_all (\<lambda>e. \<forall>s. e \<noteq> Copy_to_stderr s) (fst (to_cache_after_execute w)))"
proof (cases "x_stat_tmp_stdout w")
  case None
  then show ?thesis
    by (simp add: to_cache_after_execute_def reaches_status_test_def)
next
  case (Some st)
  show ?thesis
  proof (cases "st_size st \<noteq> 0 \<and> compiler w \<noteq> GUESSED_PUMP")
    case True
    with Some show ?thesis
      by (simp add: to_cache_after_execute_def reaches_status_test_def)
  next
    case False
    show ?thesis
    proof (cases "merge_stderr w")
      case None
      with Some False show ?thesis
        by (simp add: to_cache_after_execute_def reaches_status_test_def)
    next
      case (Some m)
      obtain ev captured where m: "m = (ev, captured)" by (cases m)
      from merge_stderr_stores_nothing[OF Some[unfolded m]]
      have ev: "list_all (\<lambda>e. \<not> stores e) ev" "list_all (\<lambda>e. \<forall>s. e \<noteq> Copy_to_stderr s) ev"
        by simp_all
      from \<open>x_stat_tmp_stdout w = Some st\<close> False Some m ev assms show ?thesis
        by (auto simp: to_cache_after_execute_def reaches_status_test_def)
    qed
  qed
qed

theorem compiler_failure_propagation_witness:
  "status world_gcc_fails \<noteq> 0 \<and>
   reaches_status_test world_gcc_fails = Some ''a.c:1: error'' \<and>
   to_cache_after_execute world_gcc_fails =
     ([Tmp_unlink Tmp_stdout, Stats_update STATS_STATUS, Copy_to_stderr ''a.c:1: error'',
       Tmp_unlink Tmp_stderr], X_exit 1) \<and>
   list_all (\<lambda>e. \<not> stores e) (fst (to_cache_after_execute world_gcc_fails)) \<and>
   snd (to_cache_after_execute world_gcc_fails) = X_exit (status world_gcc_fails)"
proof -
  have s: "status world_gcc_fails \<noteq> 0" by (simp add: world_gcc_fails_def)
  have r: "reaches_status_test world_gcc_fails = Some ''a.c:1: error''"
    by (simp add: reaches_status_test_def world_gcc_fails_def stat_empty_def merge_stderr_def)
  have t: "to_cache_after_execute world_gcc_fails =
     ([Tmp_unlink Tmp_stdout, Stats_update STATS_STATUS, Copy_to_stderr ''a.c:1: error'',
       Tmp_unlink Tmp_stderr], X_exit 1)"
    by (simp add: to_cache_after_execute_def world_gcc_fails_def stat_empty_def merge_stderr_def)
  from compiler_failure_propagation[OF s] r s t show ?thesis by simp
qed

text \<open>
  C7 as stated fails: gcc exits with status 1 after it has written to stdout as well.
  \<open>to_cache\<close> counts \<open>STATS_STDOUT\<close>, removes both temporary files and calls
  \<open>failed()\<close>; the captured stderr is not copied and \<open>x_exit\<close> is not reached.
\<close>

theorem compiler_failure_propagation_counterexample:
  "status world_gcc_fails_with_stdout \<noteq> 0 \<and>
   to_cache_after_execute world_gcc_fails_with_stdout =
     ([Stats_update STATS_STDOUT, Tmp_unlink Tmp_stdout, Tmp_unlink Tmp_stderr], Failed) \<and>
   snd (to_cache_after_execute world_gcc_fails_with_stdout)
     \<noteq> X_exit (status world_gcc_fails_with_stdout) \<and>
   Copy_to_stderr (compiler_stderr world_gcc_fails_with_stdout)
     \<notin> set (fst (to_cache_after_execute world_gcc_fails_with_stdout))"
  by (simp add: to_cache_after_execute_def world_gcc_fails_with_stdout_def world_gcc_fails_def
      stat_a_10_def)

section \<open>The limit on -arch options\<close>


lemma rule_other_bound:
  "length (arch_args st) \<le> MAX_ARCH_ARGS - 1 \<Longrightarrow> bounded_step (rule_other env argv i st)"
  by (simp add: rule_other_def bounded_step_def split: prod.split option.split)

lemma rule_arch_bound:
  "length (arch_args st) \<le> MAX_ARCH_ARGS - 1 \<Longrightarrow> bounded_step (rule_arch env argv i st)"
  unfolding rule_arch_def
  by (simp add: rule_other_bound Let_def)
    (simp add: bounded_step_def stats_update_def MAX_ARCH_ARGS_def)

lemma rule_xarch_bound:
  "length (arch_args st) \<le> MAX_ARCH_ARGS - 1 \<Longrightarrow> bounded_step (rule_xarch env argv i st)"
  unfolding rule_xarch_def
  by (simp add: rule_arch_bound Let_def) (simp add: bounded_step_def stats_update_def)

lemma rule_too_hard_bound:
  "length (arch_args st) \<le> MAX_ARCH_ARGS - 1 \<Longrightarrow> bounded_step (rule_too_hard env argv i st)"
  unfolding rule_too_hard_def
  by (simp add: rule_xarch_bound) (simp add: bounded_step_def stats_update_def)

lemma rule_optf_bound:
  "length (arch_args st) \<le> MAX_ARCH_ARGS - 1 \<Longrightarrow> bounded_step (rule_optf env argv i st)"
  unfolding rule_optf_def
  by (simp add: rule_too_hard_bound Let_def split: option.split)
    (simp add: bounded_step_def stats_update_def)

lemma rule_atfile_bound:
  "length (arch_args st) \<le> MAX_ARCH_ARGS - 1 \<Longrightarrow> bounded_step (rule_atfile env argv i st)"
  unfolding rule_atfile_def
  by (simp add: rule_optf_bound split: option.split)
    (simp add: bounded_step_def stats_update_def)

lemma step_arch_bound:
  "length (arch_args st) \<le> MAX_ARCH_ARGS - 1 \<Longrightarrow>
     bounded_step (cc_process_args_step env argv i st)"
  unfolding cc_process_args_step_def
  by (simp add: rule_atfile_bound) (simp add: bounded_step_def stats_update_def)


lemma loop_arch_bound:
  "length (arch_args st) \<le> MAX_ARCH_ARGS - 1 \<Longrightarrow>
   length (result_arch_args (cc_process_args_loop fuel env argv i st)) \<le> MAX_ARCH_ARGS - 1"
proof (induction fuel arbitrary: argv i st)
  case 0
  then show ?case by simp
next
  case (Suc fuel)
  show ?case
  proof (cases "i < length argv")
    case False
    with Suc.prems show ?thesis by simp
  next
    case True
    show ?thesis
    proof (cases "cc_process_args_step env argv i st")
      case (Ends r)
      with step_arch_bound[OF Suc.prems, of env argv i] True show ?thesis
        by (simp add: bounded_step_def)
    next
      case (Continue argv' i' st')
      with step_arch_bound[OF Suc.prems, of env argv i]
      have "length (arch_args st') \<le> MAX_ARCH_ARGS - 1" by (simp add: bounded_step_def)
      from Suc.IH[OF this] Continue True show ?thesis by simp
    qed
  qed
qed

lemma arch_args_bound:
  "length (result_arch_args (cc_process_args_arch fuel env direct r argv)) \<le> MAX_ARCH_ARGS - 1"
  unfolding cc_process_args_arch_def by (rule loop_arch_bound) (simp add: MAX_ARCH_ARGS_def)

lemma nine_archs_accepted:
  "cc_process_args_arch 100 pa_env_gcc True () argv_9_archs =
     Loop_done \<lparr>arch_args = nine_archs, pa_direct_mode = True, run_second_cpp = True,
       common_args = [''gcc'', ''-c'', ''a.c''], stats_log = [], other_state = ()\<rparr>"
  by code_simp

text \<open>
  C4: the code at the failing input. A command line with exactly ten \<open>-arch\<close> options
  is refused: at the tenth, \<open>arch_args_size\<close> is \<open>MAX_ARCH_ARGS - 1 = 9\<close>, the loop
  counts \<open>STATS_UNSUPPORTED_OPTION\<close> and jumps to \<open>out\<close> with \<open>result = false\<close>,
  with nine entries in the list. The log message of that branch reads "ccache
  supports at most 10".
\<close>

theorem ten_archs_rejected:
  "cc_process_args_arch 100 pa_env_gcc True () argv_10_archs =
     Goto_out_false \<lparr>arch_args = nine_archs, pa_direct_mode = True, run_second_cpp = True,
       common_args = [''gcc''], stats_log = [STATS_UNSUPPORTED_OPTION], other_state = ()\<rparr>"
  by code_simp

section \<open>The result name: arguments that are not hashed (C5)\<close>

















lemma cpp_rule_skipped:
  assumes "skips_cpp_rule env a"
  shows "hash_arg_cpp env a rest h fc = hash_arg_dep env a rest h fc"
  using assms unfolding hash_arg_cpp_def skips_cpp_rule_def
  by (cases "crn_direct_mode env") auto









text \<open>The hash only grows.\<close>

lemma hash_compiler_grows: "set h \<subseteq> set (hash_compiler env h st p)"
  by (auto simp: hash_compiler_def hash_int_def hash_delimiter_def hash_string_def
      hash_string_buffer_def)

lemma hash_arg_default_grows: "set h \<subseteq> set (fst (snd (hash_arg_default env a rest h fc)))"
  by (auto simp: hash_arg_default_def Let_def hash_delimiter_def hash_string_def
      hash_string_buffer_def)

lemma hash_arg_ccbin_grows: "set h \<subseteq> set (fst (snd (hash_arg_ccbin env a rest h fc)))"
  using hash_arg_default_grows[of h env a rest fc]
  by (auto simp: hash_arg_ccbin_def hash_delimiter_def split: option.splits)

lemma hash_arg_xclang_grows: "set h \<subseteq> set (fst (snd (hash_arg_xclang env a rest h fc)))"
  using hash_arg_ccbin_grows[of h env a rest fc]
    hash_compiler_grows[of "hash_delimiter h ''plugin''" env]
  by (auto simp: hash_arg_xclang_def hash_delimiter_def split: option.splits)

lemma hash_arg_fplugin_grows: "set h \<subseteq> set (fst (snd (hash_arg_fplugin env a rest h fc)))"
  using hash_arg_xclang_grows[of h env a rest fc]
    hash_compiler_grows[of "hash_delimiter h ''plugin''" env]
  by (auto simp: hash_arg_fplugin_def hash_delimiter_def split: option.splits)

lemma hash_arg_specs_grows: "set h \<subseteq> set (fst (snd (hash_arg_specs env a rest h fc)))"
  using hash_arg_fplugin_grows[of h env a rest fc]
    hash_compiler_grows[of "hash_delimiter h ''specs''" env]
  by (auto simp: hash_arg_specs_def hash_delimiter_def split: option.splits)

lemma hash_arg_dep_grows: "set h \<subseteq> set (fst (snd (hash_arg_dep env a rest h fc)))"
  using hash_arg_specs_grows[of h env a rest fc]
  by (auto simp: hash_arg_dep_def hash_delimiter_def hash_string_buffer_def)

lemma hash_arg_cpp_grows: "set h \<subseteq> set (fst (snd (hash_arg_cpp env a rest h fc)))"
  using hash_arg_dep_grows[of h env a rest fc]
  by (auto simp: hash_arg_cpp_def)

lemma hash_arg_prefix_map_grows:
  "set h \<subseteq> set (fst (snd (hash_arg_prefix_map env a rest h fc)))"
  using hash_arg_cpp_grows[of h env a rest fc]
  by (auto simp: hash_arg_prefix_map_def hash_delimiter_def hash_string_def
      hash_string_buffer_def)

lemma hash_arg_grows: "set h \<subseteq> set (fst (snd (hash_arg env a rest h fc)))"
  using hash_arg_prefix_map_grows[of h env a rest fc]
  by (auto simp: hash_arg_def)

lemma hash_args_grows: "set h \<subseteq> set (fst (hash_args env args h fc))"
proof (induction env args h fc rule: hash_args.induct)
  case (1 env h fc)
  show ?case by simp
next
  case (2 env a rest h fc)
  obtain n h1 fc1 where r: "hash_arg env a rest h fc = (n, h1, fc1)"
    by (cases "hash_arg env a rest h fc")
  from hash_arg_grows[of h env a rest fc] r have "set h \<subseteq> set h1" by simp
  with "2.IH"[OF r[symmetric] refl] r show ?case by auto
qed




section \<open>A compiler that is not recognised (C10)\<close>

text \<open>Only the top of the loop body looks at the guessed compiler.\<close>

lemma hash_compiler_guess:
  "hash_compiler (env\<lparr>crn_compiler := g\<rparr>) h st p = hash_compiler env h st p"
  by (simp add: hash_compiler_def)

lemma hash_arg_default_guess:
  "hash_arg_default (env\<lparr>crn_compiler := g\<rparr>) a rest h fc = hash_arg_default env a rest h fc"
  by (simp add: hash_arg_default_def)

lemma hash_arg_ccbin_guess:
  "hash_arg_ccbin (env\<lparr>crn_compiler := g\<rparr>) a rest h fc = hash_arg_ccbin env a rest h fc"
  by (simp add: hash_arg_ccbin_def hash_arg_default_guess split: option.splits)

lemma hash_arg_xclang_guess:
  "hash_arg_xclang (env\<lparr>crn_compiler := g\<rparr>) a rest h fc = hash_arg_xclang env a rest h fc"
  by (simp add: hash_arg_xclang_def hash_arg_ccbin_guess hash_compiler_guess
      split: option.splits)

lemma hash_arg_fplugin_guess:
  "hash_arg_fplugin (env\<lparr>crn_compiler := g\<rparr>) a rest h fc = hash_arg_fplugin env a rest h fc"
  by (simp add: hash_arg_fplugin_def hash_arg_xclang_guess hash_compiler_guess
      split: option.splits)

lemma hash_arg_specs_guess:
  "hash_arg_specs (env\<lparr>crn_compiler := g\<rparr>) a rest h fc = hash_arg_specs env a rest h fc"
  by (simp add: hash_arg_specs_def hash_arg_fplugin_guess hash_compiler_guess
      split: option.splits)

lemma hash_arg_dep_guess:
  "hash_arg_dep (env\<lparr>crn_compiler := g\<rparr>) a rest h fc = hash_arg_dep env a rest h fc"
  by (simp add: hash_arg_dep_def hash_arg_specs_guess)

lemma hash_arg_cpp_guess:
  "hash_arg_cpp (env\<lparr>crn_compiler := g\<rparr>) a rest h fc = hash_arg_cpp env a rest h fc"
  by (simp add: hash_arg_cpp_def hash_arg_dep_guess)

lemma hash_arg_prefix_map_guess:
  "hash_arg_prefix_map (env\<lparr>crn_compiler := g\<rparr>) a rest h fc
     = hash_arg_prefix_map env a rest h fc"
  by (simp add: hash_arg_prefix_map_def hash_arg_cpp_guess)

lemma hash_arg_unknown:
  "hash_arg (env\<lparr>crn_compiler := GUESSED_UNKNOWN\<rparr>) a rest h fc
     = hash_arg (env\<lparr>crn_compiler := GUESSED_CLANG\<rparr>) a rest h fc"
  by (simp add: hash_arg_def is_clang_def hash_arg_prefix_map_guess)

lemma hash_args_same_rounds:
  assumes "\<And>a rest h fc. hash_arg e1 a rest h fc = hash_arg e2 a rest h fc"
  shows "hash_args e1 args h fc = hash_args e2 args h fc"
  using assms
proof (induction e2 args h fc rule: hash_args.induct)
  case (1 env h fc)
  show ?case by simp
next
  case (2 env a rest h fc)
  obtain n h1 fc1 where r: "hash_arg env a rest h fc = (n, h1, fc1)"
    by (cases "hash_arg env a rest h fc")
  from "2.IH"[OF r[symmetric] refl "2.prems"] r "2.prems"[of a rest h fc]
  show ?case by simp
qed

lemma hash_args_unknown:
  "hash_args (env\<lparr>crn_compiler := GUESSED_UNKNOWN\<rparr>) args h fc
     = hash_args (env\<lparr>crn_compiler := GUESSED_CLANG\<rparr>) args h fc"
  by (rule hash_args_same_rounds) (rule hash_arg_unknown)

text \<open>Under a compiler like clang a linker option ends in the last rule.\<close>

lemma L_prefixes:
  "\<not> str_startswith (''-L'' @ d) ''-fdebug-prefix-map=''"
  "\<not> str_startswith (''-L'' @ d) ''-ffile-prefix-map=''"
  "\<not> str_startswith (''-L'' @ d) ''-fmacro-prefix-map=''"
  "\<not> str_startswith (''-L'' @ d) ''-Wp,''"
  "\<not> str_startswith (''-L'' @ d) ''-MF''"
  "\<not> str_startswith (''-L'' @ d) ''-specs=''"
  "\<not> str_startswith (''-L'' @ d) ''--specs=''"
  "\<not> str_startswith (''-L'' @ d) ''-fplugin=''"
  "''-L'' @ d \<noteq> ''-Xclang''" "''-L'' @ d \<noteq> ''-ccbin''"
  "''-L'' @ d \<noteq> ''--compiler-bindir''"
  by (simp_all add: str_startswith_def)

lemma Wl_prefixes:
  "\<not> str_startswith (''-Wl,'' @ d) ''-fdebug-prefix-map=''"
  "\<not> str_startswith (''-Wl,'' @ d) ''-ffile-prefix-map=''"
  "\<not> str_startswith (''-Wl,'' @ d) ''-fmacro-prefix-map=''"
  "\<not> str_startswith (''-Wl,'' @ d) ''-Wp,''"
  "\<not> str_startswith (''-Wl,'' @ d) ''-MF''"
  "\<not> str_startswith (''-Wl,'' @ d) ''-specs=''"
  "\<not> str_startswith (''-Wl,'' @ d) ''--specs=''"
  "\<not> str_startswith (''-Wl,'' @ d) ''-fplugin=''"
  "''-Wl,'' @ d \<noteq> ''-Xclang''" "''-Wl,'' @ d \<noteq> ''-ccbin''"
  "''-Wl,'' @ d \<noteq> ''--compiler-bindir''"
  by (simp_all add: str_startswith_def)

lemma ordinary_argument:
  assumes "is_clang env" "skips_cpp_rule env a"
    "\<not> str_startswith a ''-fdebug-prefix-map=''" "\<not> str_startswith a ''-ffile-prefix-map=''"
    "\<not> str_startswith a ''-fmacro-prefix-map=''" "\<not> str_startswith a ''-Wp,''"
    "\<not> str_startswith a ''-MF''" "\<not> str_startswith a ''-specs=''"
    "\<not> str_startswith a ''--specs=''" "\<not> str_startswith a ''-fplugin=''"
    "a \<noteq> ''-Xclang''" "a \<noteq> ''-ccbin''" "a \<noteq> ''--compiler-bindir''"
  shows "hash_arg env a rest h fc = hash_arg_default env a rest h fc"
proof -
  from assms(1,3-5) have "hash_arg env a rest h fc = hash_arg_cpp env a rest h fc"
    by (simp add: hash_arg_def hash_arg_prefix_map_def)
  also have "\<dots> = hash_arg_dep env a rest h fc"
    by (rule cpp_rule_skipped[OF assms(2)])
  also from assms(6,7) have "\<dots> = hash_arg_specs env a rest h fc"
    by (simp add: hash_arg_dep_def)
  also from assms(8,9) have "\<dots> = hash_arg_fplugin env a rest h fc"
    by (simp add: hash_arg_specs_def specs_path_def)
  also from assms(10) have "\<dots> = hash_arg_xclang env a rest h fc"
    by (simp add: hash_arg_fplugin_def)
  also from assms(11) have "\<dots> = hash_arg_ccbin env a rest h fc"
    by (simp add: hash_arg_xclang_def)
  also from assms(12,13) have "\<dots> = hash_arg_default env a rest h fc"
    by (simp add: hash_arg_ccbin_def)
  finally show ?thesis .
qed

lemma ordinary_argument_hashed:
  assumes "hash_arg env a rest h fc = hash_arg_default env a rest h fc"
  shows "Hash_buffer a \<in> set (fst (hash_args env (a # rest) h fc))"
proof -
  obtain n h1 fc1 where r: "hash_arg env a rest h fc = (n, h1, fc1)"
    by (cases "hash_arg env a rest h fc")
  with assms have "hash_arg_default env a rest h fc = (n, h1, fc1)" by simp
  then have "Hash_buffer a \<in> set h1"
    by (auto simp: hash_arg_default_def Let_def hash_string_def hash_string_buffer_def
        hash_delimiter_def split: if_splits)
  with hash_args_grows[of h1 env "drop (n - 1) rest" fc1] r show ?thesis by auto
qed

text \<open>\<open>verify_result\<close> makes no difference between the two compilers.\<close>

lemma lookup_stat_guess:
  "lookup_stat (env\<lparr>the_guessed_compiler := g\<rparr>) p c = lookup_stat env p c"
  by (simp add: lookup_stat_def split: option.splits)

lemma lookup_hash_guess:
  "lookup_hash (env\<lparr>the_guessed_compiler := g\<rparr>) config p c = lookup_hash env config p c"
  by (simp add: lookup_hash_def split: option.splits)

lemma verify_file_info_unknown:
  "verify_file_info (env\<lparr>the_guessed_compiler := GUESSED_UNKNOWN\<rparr>) config fi p c
     = verify_file_info (env\<lparr>the_guessed_compiler := GUESSED_CLANG\<rparr>) config fi p c"
  by (simp add: verify_file_info_def lookup_stat_guess lookup_hash_guess
      cong: option.case_cong prod.case_cong if_cong)

lemma verify_result_loop_unknown:
  "verify_result_loop (env\<lparr>the_guessed_compiler := GUESSED_UNKNOWN\<rparr>) config mf ks c
     = verify_result_loop (env\<lparr>the_guessed_compiler := GUESSED_CLANG\<rparr>) config mf ks c"
proof (induction ks arbitrary: c)
  case Nil
  show ?case by simp
next
  case (Cons k ks)
  show ?case
    by (simp add: verify_file_info_unknown Cons.IH Let_def split: prod.splits)
qed

lemma pch_mtime_rejected:
  assumes "the_guessed_compiler env = GUESSED_UNKNOWN" "caches_ok env config c"
    "k \<in> set (file_info_indexes r)"
    "pch_mtime_mismatch env (file_infos mf ! unat k)
       (path (files mf ! unat (index (file_infos mf ! unat k))))"
  shows "verify_result env config mf r c \<noteq> Returns (True, c')"
proof
  assume v: "verify_result env config mf r c = Returns (True, c')"
  from verify_result_sound[OF assms(2) v] have "entry_verified env config mf r" by simp
  with assms(3) have "file_info_verified env config (file_infos mf ! unat k)
       (path (files mf ! unat (index (file_infos mf ! unat k))))"
    by (auto simp: entry_verified_def list_all_iff Let_def)
  with assms(1,4) show False
    by (auto simp: file_info_verified_def pch_mtime_mismatch_def split: option.splits)
qed

text \<open>
  C10, as the code has it. A base name in which \<open>guess_compiler\<close> finds none of its
  patterns gives \<open>GUESSED_UNKNOWN\<close>. In the three places that test for
  \<open>GUESSED_CLANG\<close> or \<open>GUESSED_UNKNOWN\<close> the unknown compiler is treated like
  clang: the loop of \<open>calculate_result_name\<close> gives the same result for both, and an
  argument \<open>-L...\<close> or \<open>-Wl,...\<close> that the rule for the options of the preprocessor
  leaves alone is fed to the hash; \<open>verify_result\<close> gives the same result for both,
  and accepts no entry for a precompiled header that refers to a file with a changed
  mtime; \<open>from_cache\<close> decides the same for both, and does not look at a cached
  precompiled header in preprocessor mode.
\<close>

theorem unknown_compiler_treated_like_clang:
  "(\<not> strstr nm ''clang'' \<and> \<not> strstr nm ''gcc'' \<and> \<not> strstr nm ''g++''
      \<and> \<not> strstr nm ''nvcc'' \<and> nm \<noteq> ''pump'' \<and> nm \<noteq> ''distcc-pump''
      \<longrightarrow> guess_compiler nm = GUESSED_UNKNOWN) \<and>
   hash_args (env\<lparr>crn_compiler := GUESSED_UNKNOWN\<rparr>) args h fc
     = hash_args (env\<lparr>crn_compiler := GUESSED_CLANG\<rparr>) args h fc \<and>
   (crn_compiler env = GUESSED_UNKNOWN \<longrightarrow>
      (skips_cpp_rule env (''-L'' @ d) \<longrightarrow>
         Hash_buffer (''-L'' @ d) \<in> set (fst (hash_args env ((''-L'' @ d) # rest) h fc))) \<and>
      (skips_cpp_rule env (''-Wl,'' @ d) \<longrightarrow>
         Hash_buffer (''-Wl,'' @ d) \<in> set (fst (hash_args env ((''-Wl,'' @ d) # rest) h fc)))) \<and>
   verify_result (venv\<lparr>the_guessed_compiler := GUESSED_UNKNOWN\<rparr>) config mf r c
     = verify_result (venv\<lparr>the_guessed_compiler := GUESSED_CLANG\<rparr>) config mf r c \<and>
   (the_guessed_compiler venv = GUESSED_UNKNOWN \<and> caches_ok venv config c
      \<and> k \<in> set (file_info_indexes r)
      \<and> pch_mtime_mismatch venv (file_infos mf ! unat k)
           (path (files mf ! unat (index (file_infos mf ! unat k))))
      \<longrightarrow> (\<forall>c'. verify_result venv config mf r c \<noteq> Returns (True, c'))) \<and>
   from_cache_considers recache GUESSED_UNKNOWN pch mode
     = from_cache_considers recache GUESSED_CLANG pch mode \<and>
   \<not> from_cache_considers recache GUESSED_UNKNOWN True FROMCACHE_CPP_MODE"
proof -
  have guess: "\<not> strstr nm ''clang'' \<and> \<not> strstr nm ''gcc'' \<and> \<not> strstr nm ''g++''
      \<and> \<not> strstr nm ''nvcc'' \<and> nm \<noteq> ''pump'' \<and> nm \<noteq> ''distcc-pump''
      \<longrightarrow> guess_compiler nm = GUESSED_UNKNOWN"
    by (simp add: guess_compiler_def)
  have key: "hash_args (env\<lparr>crn_compiler := GUESSED_UNKNOWN\<rparr>) args h fc
     = hash_args (env\<lparr>crn_compiler := GUESSED_CLANG\<rparr>) args h fc"
    by (rule hash_args_unknown)
  have l: "Hash_buffer (''-L'' @ d) \<in> set (fst (hash_args env ((''-L'' @ d) # rest) h fc))"
    if u: "crn_compiler env = GUESSED_UNKNOWN" and s: "skips_cpp_rule env (''-L'' @ d)"
  proof -
    from u have "is_clang env" by (simp add: is_clang_def)
    from ordinary_argument[OF this s L_prefixes] show ?thesis
      by (rule ordinary_argument_hashed)
  qed
  have wl: "Hash_buffer (''-Wl,'' @ d) \<in> set (fst (hash_args env ((''-Wl,'' @ d) # rest) h fc))"
    if u: "crn_compiler env = GUESSED_UNKNOWN" and s: "skips_cpp_rule env (''-Wl,'' @ d)"
  proof -
    from u have "is_clang env" by (simp add: is_clang_def)
    from ordinary_argument[OF this s Wl_prefixes] show ?thesis
      by (rule ordinary_argument_hashed)
  qed
  have verify: "verify_result (venv\<lparr>the_guessed_compiler := GUESSED_UNKNOWN\<rparr>) config mf r c
     = verify_result (venv\<lparr>the_guessed_compiler := GUESSED_CLANG\<rparr>) config mf r c"
    by (simp add: verify_result_def verify_result_loop_unknown)
  have reject: "the_guessed_compiler venv = GUESSED_UNKNOWN \<and> caches_ok venv config c
      \<and> k \<in> set (file_info_indexes r)
      \<and> pch_mtime_mismatch venv (file_infos mf ! unat k)
           (path (files mf ! unat (index (file_infos mf ! unat k))))
      \<longrightarrow> (\<forall>c'. verify_result venv config mf r c \<noteq> Returns (True, c'))"
    using pch_mtime_rejected[of venv config c k r mf] by blast
  have fetch: "from_cache_considers recache GUESSED_UNKNOWN pch mode
     = from_cache_considers recache GUESSED_CLANG pch mode"
    "\<not> from_cache_considers recache GUESSED_UNKNOWN True FROMCACHE_CPP_MODE"
    by (simp_all add: from_cache_considers_def)
  from guess key l wl verify reject fetch show ?thesis by blast
qed

lemma guess_cc: "guess_compiler ''cc'' = GUESSED_UNKNOWN"
  by code_simp

lemma no_pattern_in_cc:
  "\<not> strstr ''cc'' ''clang''" "\<not> strstr ''cc'' ''gcc''" "\<not> strstr ''cc'' ''g++''"
  "\<not> strstr ''cc'' ''nvcc''"
  by code_simp+

theorem unknown_compiler_treated_like_clang_witness:
  "\<not> strstr ''cc'' ''clang'' \<and> \<not> strstr ''cc'' ''gcc'' \<and> \<not> strstr ''cc'' ''g++''
     \<and> \<not> strstr ''cc'' ''nvcc'' \<and> ''cc'' \<noteq> ''pump'' \<and> ''cc'' \<noteq> ''distcc-pump'' \<and>
   guess_compiler ''cc'' = GUESSED_UNKNOWN \<and>
   crn_compiler env_unknown = GUESSED_UNKNOWN \<and>
   skips_cpp_rule env_unknown (''-L'' @ ''/usr/lib'') \<and>
   Hash_buffer (''-L'' @ ''/usr/lib'')
     \<in> set (fst (hash_args env_unknown ((''-L'' @ ''/usr/lib'') # [''-O2'']) hash_init False)) \<and>
   skips_cpp_rule env_unknown (''-Wl,'' @ ''/usr/lib'') \<and>
   Hash_buffer (''-Wl,'' @ ''/usr/lib'')
     \<in> set (fst (hash_args env_unknown ((''-Wl,'' @ ''/usr/lib'') # [''-O2'']) hash_init False)) \<and>
   the_guessed_compiler env_pch_unknown = GUESSED_UNKNOWN \<and>
   caches_ok env_pch_unknown config_default no_caches \<and>
   (0 :: 32 word) \<in> set (file_info_indexes result_a) \<and>
   pch_mtime_mismatch env_pch_unknown (file_infos mf_a ! unat (0 :: 32 word))
     (path (files mf_a ! unat (index (file_infos mf_a ! unat (0 :: 32 word))))) \<and>
   (\<forall>c'. verify_result env_pch_unknown config_default mf_a result_a no_caches
           \<noteq> Returns (True, c'))"
proof -
  have n: "''cc'' \<noteq> ''pump''" "''cc'' \<noteq> ''distcc-pump''"
    by simp_all
  have u: "crn_compiler env_unknown = GUESSED_UNKNOWN"
    by (simp add: env_unknown_def)
  have s: "skips_cpp_rule env_unknown (''-L'' @ ''/usr/lib'')"
    "skips_cpp_rule env_unknown (''-Wl,'' @ ''/usr/lib'')"
    by (simp_all add: skips_cpp_rule_def env_unknown_def env_gcc_def table_affects_cpp_def
        table_short_affects_cpp_def)
  have g: "the_guessed_compiler env_pch_unknown = GUESSED_UNKNOWN"
    by (simp add: env_pch_unknown_def guess_cc)
  have c: "caches_ok env_pch_unknown config_default no_caches"
    by (simp add: no_caches_def caches_ok_empty)
  have k: "(0 :: 32 word) \<in> set (file_info_indexes result_a)"
    by (simp add: result_a_def)
  have m: "pch_mtime_mismatch env_pch_unknown (file_infos mf_a ! unat (0 :: 32 word))
     (path (files mf_a ! unat (index (file_infos mf_a ! unat (0 :: 32 word)))))"
    by (simp add: pch_mtime_mismatch_def env_pch_unknown_def mf_a_def fs_a_11_def
        stat_a_11_def stat_a_10_def)
  note t = unknown_compiler_treated_like_clang[where nm = "''cc''" and env = env_unknown
      and d = "''/usr/lib''" and rest = "[''-O2'']" and h = hash_init and fc = False
      and venv = env_pch_unknown and config = config_default and mf = mf_a and r = result_a
      and c = no_caches and k = 0]
  from no_pattern_in_cc n u s g c k m t show ?thesis by blast
qed

text \<open>
  C10 as stated fails on the word every: the end of \<open>cc_process_args\<close> tests
  for \<open>GUESSED_CLANG\<close> alone. With colors possible and no color option given, clang
  gets \<open>-fcolor-diagnostics\<close> and the unknown compiler gets nothing.
\<close>

theorem unknown_compiler_treated_like_clang_counterexample:
  "automatic_color_args False True GUESSED_CLANG ''c'' None = [''-fcolor-diagnostics''] \<and>
   automatic_color_args False True GUESSED_UNKNOWN ''c'' None = [] \<and>
   automatic_color_args False True GUESSED_UNKNOWN ''c'' None
     \<noteq> automatic_color_args False True GUESSED_CLANG ''c'' None"
  by (simp add: automatic_color_args_def)


end
